theory Spec2Isabelle
  imports Main "HOL-Library.Sublist" "HOL-Library.Multiset"
begin

section \<open>Python values and string operations used by the scorer\<close>

text \<open>
  The detector has two scoring functions: \<^verbatim>\<open>score_email\<close> of \<^verbatim>\<open>src/main.py\<close> (the CLI
  profile) and \<^verbatim>\<open>score_email\<close> of \<^verbatim>\<open>src/web.py\<close> (the web profile). Both are embedded
  here, prefixed \<open>main_\<close> and \<open>web_\<close>. Strings are lists of characters whose codes are
  the code points 0..255; \<open>lower\<close>, \<open>strip\<close> and the URL splitting below follow
  CPython on that range.
\<close>

datatype py_error = ValueError | IndexError | KeyError

text \<open>An input row: a CSV row keyed by header. A missing key and a \<^verbatim>\<open>None\<close> value are
  both \<open>None\<close>, since the code reads every field as \<^verbatim>\<open>row.get(k) or ""\<close>.\<close>

type_synonym row = "string \<rightharpoonup> string"

text \<open>The running \<^verbatim>\<open>score\<close> and \<^verbatim>\<open>reasons\<close> of one call.\<close>

type_synonym acc = "int \<times> string list"

definition lower_char :: "char \<Rightarrow> char" where
  "lower_char c =
     (let n = (of_char c :: nat)
      in if (65 \<le> n \<and> n \<le> 90) \<or> (192 \<le> n \<and> n \<le> 222 \<and> n \<noteq> 215)
         then char_of (n + 32) else c)"

definition lower :: "string \<Rightarrow> string" where
  "lower s = map lower_char s"

definition isspace :: "char \<Rightarrow> bool" where
  "isspace c = ((of_char c :: nat) \<in> {9, 10, 11, 12, 13, 28, 29, 30, 31, 32, 133, 160})"

definition strip :: "string \<Rightarrow> string" where
  "strip s = rev (dropWhile isspace (rev (dropWhile isspace s)))"

text \<open>\<^verbatim>\<open>a in b\<close> on strings: \<open>a\<close> occurs in \<open>b\<close> as a contiguous substring.\<close>

fun py_in :: "string \<Rightarrow> string \<Rightarrow> bool" where
  "py_in xs [] = (xs = [])"
| "py_in xs (y # ys) = (prefix xs (y # ys) \<or> py_in xs ys)"

definition startswith :: "string \<Rightarrow> string \<Rightarrow> bool" where
  "startswith s p = prefix p s"

text \<open>\<^verbatim>\<open>s.split(c, 1)\<close> and \<^verbatim>\<open>s.split(c)\<close> for a one-character separator.\<close>

definition py_split1 :: "char \<Rightarrow> string \<Rightarrow> string list" where
  "py_split1 c s =
     (if c \<in> set s then [takeWhile (\<lambda>x. x \<noteq> c) s, tl (dropWhile (\<lambda>x. x \<noteq> c) s)] else [s])"

fun py_split :: "char \<Rightarrow> string \<Rightarrow> string list" where
  "py_split c [] = [] # []"
| "py_split c (x # xs) =
     (if x = c then [] # py_split c xs
      else (case py_split c xs of [] \<Rightarrow> [x] # [] | w # ws \<Rightarrow> (x # w) # ws))"

text \<open>List indexing, negative indices counting from the end, \<^verbatim>\<open>IndexError\<close> out of range.\<close>

definition py_index :: "'a list \<Rightarrow> int \<Rightarrow> py_error + 'a" where
  "py_index xs i =
     (if 0 \<le> i \<and> i < int (length xs) then Inr (xs ! nat i)
      else if i < 0 \<and> - i \<le> int (length xs) then Inr (xs ! nat (int (length xs) + i))
      else Inl IndexError)"

definition or_empty :: "string option \<Rightarrow> string" where
  "or_empty v = (case v of None \<Rightarrow> [] | Some s \<Rightarrow> s)"

text \<open>\<^verbatim>\<open>row.get(key)\<close>: the value read, and the mapping as the call leaves it.\<close>

definition dict_get :: "string \<Rightarrow> row \<Rightarrow> string option \<times> row" where
  "dict_get key d = (d key, d)"

text \<open>\<^verbatim>\<open>score += delta; reasons.append(tag)\<close>.\<close>

definition fire :: "int \<Rightarrow> string \<Rightarrow> acc \<Rightarrow> acc" where
  "fire delta tag a = (fst a + delta, snd a @ [tag])"

section \<open>The network location of \<^verbatim>\<open>urllib.parse.urlparse\<close>\<close>

text \<open>
  \<^verbatim>\<open>urlparse\<close> is the standard library's, not the repository's. The scorer is embedded
  over any parser: a \<open>url_parser\<close> gives the \<^verbatim>\<open>netloc\<close> of \<^verbatim>\<open>urlparse(url)\<close>, or the
  exception the call raises. \<open>urlsplit_netloc\<close> follows CPython 3.11's \<^verbatim>\<open>urlsplit\<close> as far
  as \<^verbatim>\<open>netloc\<close> goes; the validation of a bracketed host (\<^verbatim>\<open>_check_bracketed_host\<close>, an
  IPv6 or IPvFuture literal) is its parameter, and \<^verbatim>\<open>_checknetloc\<close> is left out because it
  raises for no code point below 256.
\<close>

type_synonym url_parser = "string \<Rightarrow> py_error + string"

definition c0_control_or_space :: "char \<Rightarrow> bool" where
  "c0_control_or_space c = ((of_char c :: nat) \<le> 32)"

definition unsafe_url_byte :: "char \<Rightarrow> bool" where
  "unsafe_url_byte c = (c = CHR 0x09 \<or> c = CHR 0x0D \<or> c = CHR 0x0A)"

definition ascii_alpha :: "char \<Rightarrow> bool" where
  "ascii_alpha c = (let n = (of_char c :: nat) in (65 \<le> n \<and> n \<le> 90) \<or> (97 \<le> n \<and> n \<le> 122))"

definition scheme_char :: "char \<Rightarrow> bool" where
  "scheme_char c =
     (let n = (of_char c :: nat)
      in ascii_alpha c \<or> (48 \<le> n \<and> n \<le> 57) \<or> c = CHR ''+'' \<or> c = CHR ''-'' \<or> c = CHR ''.'')"

definition strip_scheme :: "string \<Rightarrow> string" where
  "strip_scheme url =
     (let i = length (takeWhile (\<lambda>c. c \<noteq> CHR '':'') url)
      in if CHR '':'' \<in> set url \<and> 0 < i \<and> ascii_alpha (hd url) \<and> list_all scheme_char (take i url)
         then drop (i + 1) url else url)"

definition splitnetloc :: "string \<Rightarrow> string" where
  "splitnetloc url =
     takeWhile (\<lambda>c. c \<noteq> CHR ''/'' \<and> c \<noteq> CHR ''?'' \<and> c \<noteq> CHR ''#'') (drop 2 url)"

definition bracketed_host :: "string \<Rightarrow> string" where
  "bracketed_host netloc =
     takeWhile (\<lambda>c. c \<noteq> CHR '']'') (tl (dropWhile (\<lambda>c. c \<noteq> CHR ''['') netloc))"

definition urlsplit_netloc :: "(string \<Rightarrow> bool) \<Rightarrow> url_parser" where
  "urlsplit_netloc bracketed_host_ok url0 =
     (let url = dropWhile c0_control_or_space url0;
          url = filter (\<lambda>c. \<not> unsafe_url_byte c) url;
          url = strip_scheme url
      in if take 2 url = ''//'' then
           (let netloc = splitnetloc url
            in if (CHR ''['' \<in> set netloc \<and> CHR '']'' \<notin> set netloc)
                  \<or> (CHR '']'' \<in> set netloc \<and> CHR ''['' \<notin> set netloc)
               then Inl ValueError
               else if CHR ''['' \<in> set netloc \<and> CHR '']'' \<in> set netloc
                       \<and> \<not> bracketed_host_ok (bracketed_host netloc)
               then Inl ValueError
               else Inr netloc)
         else Inr [])"

text \<open>The parser of the worked examples: every bracketed host passes the validation. None
  of the examples has a bracket in it.\<close>

definition urlparse_netloc :: url_parser where
  "urlparse_netloc = urlsplit_netloc (\<lambda>host. True)"

section \<open>Domain extraction\<close>

text \<open>\<^verbatim>\<open>domain_from_email\<close> of \<^verbatim>\<open>main.py\<close> (the spec's \<^verbatim>\<open>domain_from_address\<close>).\<close>

definition domain_from_email :: "string \<Rightarrow> py_error + string" where
  "domain_from_email email =
     (if \<not> py_in ''@'' email then Inr []
      else (case py_index (py_split1 CHR ''@'' email) 1 of
              Inl e \<Rightarrow> Inl e
            | Inr d \<Rightarrow> Inr (strip (lower d))))"

text \<open>\<^verbatim>\<open>domain_from_url\<close> of \<^verbatim>\<open>main.py\<close>: the \<^verbatim>\<open>try\<close> turns every exception of the parser
  into the empty string.\<close>

definition domain_from_url :: "url_parser \<Rightarrow> string \<Rightarrow> py_error + string" where
  "domain_from_url up url =
     (case up url of
        Inl e \<Rightarrow> Inr []
      | Inr netloc \<Rightarrow> Inr (strip (lower netloc)))"

text \<open>\<^verbatim>\<open>get_domain\<close> of \<^verbatim>\<open>web.py\<close>: lower case, not trimmed.\<close>

definition get_domain :: "url_parser \<Rightarrow> string \<Rightarrow> py_error + string" where
  "get_domain up url =
     (case up url of
        Inl e \<Rightarrow> Inr []
      | Inr netloc \<Rightarrow> Inr (lower (if netloc \<noteq> [] then netloc else [])))"

section \<open>The CLI profile: \<^verbatim>\<open>score_email\<close> of \<^verbatim>\<open>main.py\<close>\<close>

definition SUSPICIOUS_KEYWORDS :: "string list" where
  "SUSPICIOUS_KEYWORDS =
     [''verify'', ''locked'', ''suspended'', ''action required'', ''urgent'', ''payment failed'',
      ''compromised'', ''secure'', ''reset'', ''unusual login'']"

definition BRAND_KEYWORDS :: "string list" where
  "BRAND_KEYWORDS = [''amazon'', ''paypal'', ''netflix'', ''apple'', ''bank'']"

definition risky :: "string list" where
  "risky = [''.exe'', ''.js'', ''.vbs'', ''.bat'', ''.scr'', ''.zip'', ''.iso'', ''.docm'', ''.xlsm'']"

text \<open>The reason tags that carry a keyword or a brand: \<^verbatim>\<open>f"keyword:{kw}"\<close> and
  \<^verbatim>\<open>f"brand_domain_mismatch:{brand}"\<close>.\<close>

definition main_keyword_tag :: "string \<Rightarrow> string" where
  "main_keyword_tag kw = ''keyword:'' @ kw"

definition main_brand_tag :: "string \<Rightarrow> string" where
  "main_brand_tag brand = ''brand_domain_mismatch:'' @ brand"

fun keyword_loop :: "string list \<Rightarrow> string \<Rightarrow> acc \<Rightarrow> acc" where
  "keyword_loop [] text a = a"
| "keyword_loop (kw # kws) text a =
     keyword_loop kws text (if py_in kw text then fire 2 (main_keyword_tag kw) a else a)"

text \<open>The brand loop of the CLI profile leaves at the first brand that fires (\<^verbatim>\<open>break\<close>).\<close>

fun brand_loop :: "string list \<Rightarrow> string \<Rightarrow> string \<Rightarrow> acc \<Rightarrow> acc" where
  "brand_loop [] sender sender_domain a = a"
| "brand_loop (brand # brands) sender sender_domain a =
     (if py_in brand sender \<and> \<not> py_in brand sender_domain
      then fire 3 (main_brand_tag brand) a
      else brand_loop brands sender sender_domain a)"

definition main_link_rules :: "url_parser \<Rightarrow> string \<Rightarrow> string \<Rightarrow> string \<Rightarrow> acc \<Rightarrow> py_error + acc" where
  "main_link_rules up links sender sender_domain a0 =
     (if links \<noteq> [] \<and> lower links \<noteq> ''none'' then
        (case domain_from_url up links of
           Inl e \<Rightarrow> Inl e
         | Inr link_domain \<Rightarrow>
             (let a1 = (if startswith (lower links) ''http://'' then fire 3 ''link:http'' a0 else a0);
                  a2 = (if link_domain \<noteq> [] \<and> sender_domain \<noteq> [] \<and> link_domain \<noteq> sender_domain
                        then fire 2 ''link_domain_mismatch'' a1 else a1);
                  a3 = brand_loop BRAND_KEYWORDS sender sender_domain a2;
                  a4 = (if py_in ''0'' links \<or> (py_in ''-'' link_domain \<and> link_domain \<noteq> [])
                        then fire 1 ''lookalike_hint'' a3 else a3)
              in Inr a4))
      else Inr a0)"

definition main_attachment_rules :: "string \<Rightarrow> acc \<Rightarrow> acc" where
  "main_attachment_rules attachments a0 =
     (if attachments \<noteq> [] \<and> attachments \<noteq> ''none'' then
        (let a1 = fire 2 ''has_attachment'' a0
         in if list_ex (\<lambda>ext. py_in ext attachments) risky
            then fire 4 ''risky_attachment_type'' a1 else a1)
      else a0)"

text \<open>The body of \<^verbatim>\<open>score_email\<close> once the five fields are read.\<close>

definition main_rules ::
  "url_parser \<Rightarrow> string \<Rightarrow> string \<Rightarrow> string \<Rightarrow> string \<Rightarrow> string \<Rightarrow> py_error + acc" where
  "main_rules up sender subject body links attachments =
     (case domain_from_email sender of
        Inl e \<Rightarrow> Inl e
      | Inr sender_domain \<Rightarrow>
          (let text = subject @ '' '' @ body;
               a1 = keyword_loop SUSPICIOUS_KEYWORDS text (0, [])
           in (case main_link_rules up links sender sender_domain a1 of
                 Inl e \<Rightarrow> Inl e
               | Inr a2 \<Rightarrow> Inr (main_attachment_rules attachments a2))))"

text \<open>\<^verbatim>\<open>score_email(row)\<close>: the result (or the exception raised) and the row afterwards.\<close>

definition main_score_email :: "url_parser \<Rightarrow> row \<Rightarrow> (py_error + acc) \<times> row" where
  "main_score_email up row0 =
     (let (v1, row1) = dict_get ''sender'' row0; sender = lower (or_empty v1);
          (v2, row2) = dict_get ''subject'' row1; subject = lower (or_empty v2);
          (v3, row3) = dict_get ''body'' row2; body = lower (or_empty v3);
          (v4, row4) = dict_get ''links'' row3; links = strip (or_empty v4);
          (v5, row5) = dict_get ''attachments'' row4; attachments = strip (lower (or_empty v5))
      in (main_rules up sender subject body links attachments, row5))"

section \<open>The web profile: \<^verbatim>\<open>score_email\<close> of \<^verbatim>\<open>web.py\<close>\<close>

definition KEYWORDS :: "string list" where
  "KEYWORDS =
     [''verify'', ''suspended'', ''action required'', ''locked'', ''payment failed'',
      ''compromised'', ''secure'', ''reset'', ''unusual login'']"

text \<open>The \<^verbatim>\<open>BRANDS\<close> dictionary in its insertion order, which \<^verbatim>\<open>items()\<close> follows.\<close>

definition BRANDS :: "(string \<times> string list) list" where
  "BRANDS =
     [(''amazon'', [''amazon.com'']),
      (''paypal'', [''paypal.com'']),
      (''netflix'', [''netflix.com'']),
      (''apple'', [''apple.com'', ''icloud.com''])]"

definition lookalike_hint :: "string \<Rightarrow> bool" where
  "lookalike_hint text =
     (let t = lower text
      in list_ex (\<lambda>x. py_in x t) [''0'', ''1'', ''secure-'', ''-secure'', ''login-'', ''-login''])"

text \<open>\<^verbatim>\<open>f"Keyword match: '{k}'"\<close> and \<^verbatim>\<open>f"Brand/domain mismatch: {brand}"\<close>.\<close>

definition web_keyword_tag :: "string \<Rightarrow> string" where
  "web_keyword_tag k = ''Keyword match: '' @ [CHR 0x27] @ k @ [CHR 0x27]"

definition web_brand_tag :: "string \<Rightarrow> string" where
  "web_brand_tag brand = ''Brand/domain mismatch: '' @ brand"

fun web_keyword_loop :: "string list \<Rightarrow> string \<Rightarrow> acc \<Rightarrow> acc" where
  "web_keyword_loop [] blob a = a"
| "web_keyword_loop (k # ks) blob a =
     web_keyword_loop ks blob (if py_in k blob then fire 2 (web_keyword_tag k) a else a)"

fun web_brand_loop ::
  "(string \<times> string list) list \<Rightarrow> string \<Rightarrow> string \<Rightarrow> string \<Rightarrow> acc \<Rightarrow> acc" where
  "web_brand_loop [] sender subject body a = a"
| "web_brand_loop ((brand, legit_domains) # items) sender subject body a =
     web_brand_loop items sender subject body
       (if py_in brand sender \<or> py_in brand subject \<or> py_in brand body then
          (if \<not> list_ex (\<lambda>d. py_in d sender) legit_domains
           then fire 3 (web_brand_tag brand) a else a)
        else a)"

definition web_sender_domain :: "string \<Rightarrow> py_error + string" where
  "web_sender_domain sender =
     (if py_in ''@'' sender then py_index (py_split CHR ''@'' sender) (- 1) else Inr [])"

definition web_link_rules ::
  "url_parser \<Rightarrow> string \<Rightarrow> string \<Rightarrow> string \<Rightarrow> string \<Rightarrow> acc \<Rightarrow> py_error + acc" where
  "web_link_rules up links sender subject body a0 =
     (if links \<noteq> [] \<and> lower links \<noteq> ''none'' then
        (let a1 = (if startswith (lower links) ''http://''
                   then fire 2 ''HTTP link (not HTTPS)'' a0 else a0)
         in (case get_domain up links of
               Inl e \<Rightarrow> Inl e
             | Inr link_domain \<Rightarrow>
                 (case web_sender_domain sender of
                    Inl e \<Rightarrow> Inl e
                  | Inr sender_domain \<Rightarrow>
                      (let a2 = (if link_domain \<noteq> [] \<and> sender_domain \<noteq> []
                                    \<and> link_domain \<noteq> sender_domain
                                 then fire 2 ''Link domain differs from sender domain'' a1 else a1)
                       in Inr (web_brand_loop BRANDS sender subject body a2)))))
      else Inr a0)"

definition web_score_email :: "url_parser \<Rightarrow> row \<Rightarrow> (py_error + acc) \<times> row" where
  "web_score_email up row0 =
     (let (v1, row1) = dict_get ''sender'' row0; sender = lower (or_empty v1);
          (v2, row2) = dict_get ''subject'' row1; subject = lower (or_empty v2);
          (v3, row3) = dict_get ''body'' row2; body = lower (or_empty v3);
          (v4, row4) = dict_get ''links'' row3; links = strip (or_empty v4);
          blob = sender @ '' '' @ subject @ '' '' @ body;
          a1 = web_keyword_loop KEYWORDS blob (0, []);
          (v5, row5) = dict_get ''attachments'' row4; attachments = lower (or_empty v5);
          a2 = (if attachments \<noteq> [] \<and> attachments \<noteq> ''none''
                then fire 2 ''Has attachment'' a1 else a1)
      in (case web_link_rules up links sender subject body a2 of
            Inl e \<Rightarrow> (Inl e, row5)
          | Inr a3 \<Rightarrow>
              (Inr (if lookalike_hint sender \<or> lookalike_hint links
                    then fire 1 ''Possible lookalike pattern'' a3 else a3), row5)))"

section \<open>Sorting and filtering the scored records\<close>

text \<open>A scored record: whatever the caller keeps of the row, with its score (the
  \<^verbatim>\<open>_score\<close> key of the CLI, the \<^verbatim>\<open>score\<close> key of the web view).\<close>

record scored =
  score :: int

text \<open>\<^verbatim>\<open>xs.sort(key=key, reverse=True)\<close>: CPython reverses the list, sorts it stably in
  ascending order of the key, and reverses the result.\<close>

definition py_sort_reverse :: "('a \<Rightarrow> int) \<Rightarrow> 'a list \<Rightarrow> 'a list" where
  "py_sort_reverse key xs = rev (sort_key key (rev xs))"

text \<open>\<^verbatim>\<open>main\<close> of \<^verbatim>\<open>main.py\<close>: the sorted \<^verbatim>\<open>emails\<close> (all of them go to the CSV report),
  the \<^verbatim>\<open>filtered\<close> list, and the entries printed on the terminal.\<close>

definition main_sorted :: "'a scored_scheme list \<Rightarrow> 'a scored_scheme list" where
  "main_sorted emails = py_sort_reverse score emails"

definition main_filtered :: "int \<Rightarrow> 'a scored_scheme list \<Rightarrow> 'a scored_scheme list" where
  "main_filtered min_score emails = filter (\<lambda>r. min_score \<le> score r) (main_sorted emails)"

definition main_printed :: "int \<Rightarrow> 'a scored_scheme list \<Rightarrow> 'a scored_scheme list" where
  "main_printed min_score emails = take 10 (main_filtered min_score emails)"

text \<open>\<^verbatim>\<open>index\<close> of \<^verbatim>\<open>web.py\<close>: records are kept when their score reaches the threshold,
  and the kept list is sorted and rendered whole.\<close>

definition web_results :: "int \<Rightarrow> 'a scored_scheme list \<Rightarrow> 'a scored_scheme list" where
  "web_results min_score outs = py_sort_reverse score (filter (\<lambda>r. min_score \<le> score r) outs)"

section \<open>The rule table and closed forms of the reason lists\<close>

text \<open>
  The point delta of a reason tag and the position of its rule in the evaluation order, for
  each profile (the rule table of the specification, with the CLI's +3 and the web view's +2
  for a plain-HTTP link). A keyword tag ranks by the position of its keyword in the
  configured list, a web brand tag by the position of its brand in \<open>BRANDS\<close>.
\<close>

fun index_of :: "'a list \<Rightarrow> 'a \<Rightarrow> nat" where
  "index_of [] x = 0"
| "index_of (y # ys) x = (if x = y then 0 else Suc (index_of ys x))"

definition main_delta :: "string \<Rightarrow> int" where
  "main_delta r =
     (if prefix ''keyword:'' r then 2
      else if r = ''link:http'' then 3
      else if r = ''link_domain_mismatch'' then 2
      else if prefix ''brand_domain_mismatch:'' r then 3
      else if r = ''lookalike_hint'' then 1
      else if r = ''has_attachment'' then 2
      else if r = ''risky_attachment_type'' then 4
      else 0)"

definition main_rank :: "string \<Rightarrow> nat" where
  "main_rank r =
     (if prefix ''keyword:'' r then index_of SUSPICIOUS_KEYWORDS (drop 8 r)
      else if r = ''link:http'' then 10
      else if r = ''link_domain_mismatch'' then 11
      else if prefix ''brand_domain_mismatch:'' r then 12
      else if r = ''lookalike_hint'' then 13
      else if r = ''has_attachment'' then 14
      else if r = ''risky_attachment_type'' then 15
      else 16)"

definition web_delta :: "string \<Rightarrow> int" where
  "web_delta r =
     (if prefix ''Keyword match: '' r then 2
      else if r = ''Has attachment'' then 2
      else if r = ''HTTP link (not HTTPS)'' then 2
      else if r = ''Link domain differs from sender domain'' then 2
      else if prefix ''Brand/domain mismatch: '' r then 3
      else if r = ''Possible lookalike pattern'' then 1
      else 0)"

definition web_rank :: "string \<Rightarrow> nat" where
  "web_rank r =
     (if prefix ''Keyword match: '' r then index_of KEYWORDS (butlast (drop 16 r))
      else if r = ''Has attachment'' then 9
      else if r = ''HTTP link (not HTTPS)'' then 10
      else if r = ''Link domain differs from sender domain'' then 11
      else if prefix ''Brand/domain mismatch: '' r then 12 + index_of (map fst BRANDS) (drop 23 r)
      else if r = ''Possible lookalike pattern'' then 16
      else 17)"

text \<open>The domains the rules compare, as plain values: the functions above never raise
  (lemmas \<open>domain_from_email_eq\<close>, \<open>domain_from_url_eq\<close>, \<open>get_domain_eq2\<close>,
  \<open>web_sender_domain_eq\<close>).\<close>

definition sender_domain_of :: "string \<Rightarrow> string" where
  "sender_domain_of email =
     (if CHR ''@'' \<in> set email
      then strip (lower (tl (dropWhile (\<lambda>x. x \<noteq> CHR ''@'') email))) else [])"

definition link_domain_of :: "url_parser \<Rightarrow> string \<Rightarrow> string" where
  "link_domain_of up url = (case up url of Inl e \<Rightarrow> [] | Inr netloc \<Rightarrow> strip (lower netloc))"

definition web_link_domain_of :: "url_parser \<Rightarrow> string \<Rightarrow> string" where
  "web_link_domain_of up url = (case up url of Inl e \<Rightarrow> [] | Inr netloc \<Rightarrow> lower netloc)"

definition web_sender_domain_of :: "string \<Rightarrow> string" where
  "web_sender_domain_of sender =
     (if CHR ''@'' \<in> set sender then last (py_split CHR ''@'' sender) else [])"

text \<open>\<open>emit delta ts a\<close> appends the tags \<open>ts\<close> and adds their deltas. Each block of
  rules is shown below to be an \<open>emit\<close> of the tags listed here.\<close>

definition emit :: "(string \<Rightarrow> int) \<Rightarrow> string list \<Rightarrow> acc \<Rightarrow> acc" where
  "emit delta ts a = (fst a + sum_list (map delta ts), snd a @ ts)"

definition main_keyword_tags :: "string \<Rightarrow> string list" where
  "main_keyword_tags text =
     map main_keyword_tag (filter (\<lambda>kw. py_in kw text) SUSPICIOUS_KEYWORDS)"

definition main_brand_tags :: "string \<Rightarrow> string \<Rightarrow> string list" where
  "main_brand_tags sender sender_domain =
     (case find (\<lambda>b. py_in b sender \<and> \<not> py_in b sender_domain) BRAND_KEYWORDS of
        None \<Rightarrow> [] | Some b \<Rightarrow> [main_brand_tag b])"

definition main_link_tags :: "url_parser \<Rightarrow> string \<Rightarrow> string \<Rightarrow> string list" where
  "main_link_tags up links sender =
     (if links \<noteq> [] \<and> lower links \<noteq> ''none'' then
        (if startswith (lower links) ''http://'' then [''link:http''] else [])
        @ (if link_domain_of up links \<noteq> [] \<and> sender_domain_of sender \<noteq> []
              \<and> link_domain_of up links \<noteq> sender_domain_of sender
           then [''link_domain_mismatch''] else [])
        @ main_brand_tags sender (sender_domain_of sender)
        @ (if CHR ''0'' \<in> set links \<or> CHR ''-'' \<in> set (link_domain_of up links)
           then [''lookalike_hint''] else [])
      else [])"

definition main_attachment_tags :: "string \<Rightarrow> string list" where
  "main_attachment_tags attachments =
     (if attachments \<noteq> [] \<and> attachments \<noteq> ''none'' then
        ''has_attachment''
        # (if list_ex (\<lambda>ext. py_in ext attachments) risky then [''risky_attachment_type''] else [])
      else [])"

definition main_tags :: "url_parser \<Rightarrow> row \<Rightarrow> string list" where
  "main_tags up row =
     main_keyword_tags (lower (or_empty (row ''subject'')) @ '' '' @ lower (or_empty (row ''body'')))
     @ main_link_tags up (strip (or_empty (row ''links''))) (lower (or_empty (row ''sender'')))
     @ main_attachment_tags (strip (lower (or_empty (row ''attachments''))))"

definition web_brand_fires :: "string \<Rightarrow> string \<Rightarrow> string \<Rightarrow> string \<times> string list \<Rightarrow> bool" where
  "web_brand_fires sender subject body item =
     ((py_in (fst item) sender \<or> py_in (fst item) subject \<or> py_in (fst item) body)
      \<and> \<not> list_ex (\<lambda>d. py_in d sender) (snd item))"

definition web_keyword_tags :: "string \<Rightarrow> string list" where
  "web_keyword_tags blob = map web_keyword_tag (filter (\<lambda>k. py_in k blob) KEYWORDS)"

definition web_brand_tags :: "string \<Rightarrow> string \<Rightarrow> string \<Rightarrow> string list" where
  "web_brand_tags sender subject body =
     map (\<lambda>item. web_brand_tag (fst item)) (filter (web_brand_fires sender subject body) BRANDS)"

definition web_link_tags :: "url_parser \<Rightarrow> string \<Rightarrow> string \<Rightarrow> string \<Rightarrow> string \<Rightarrow> string list" where
  "web_link_tags up links sender subject body =
     (if links \<noteq> [] \<and> lower links \<noteq> ''none'' then
        (if startswith (lower links) ''http://'' then [''HTTP link (not HTTPS)''] else [])
        @ (if web_link_domain_of up links \<noteq> [] \<and> web_sender_domain_of sender \<noteq> []
              \<and> web_link_domain_of up links \<noteq> web_sender_domain_of sender
           then [''Link domain differs from sender domain''] else [])
        @ web_brand_tags sender subject body
      else [])"

definition web_tags :: "url_parser \<Rightarrow> row \<Rightarrow> string list" where
  "web_tags up row =
     web_keyword_tags (lower (or_empty (row ''sender'')) @ '' ''
                       @ lower (or_empty (row ''subject'')) @ '' ''
                       @ lower (or_empty (row ''body'')))
     @ (if lower (or_empty (row ''attachments'')) \<noteq> []
           \<and> lower (or_empty (row ''attachments'')) \<noteq> ''none''
        then [''Has attachment''] else [])
     @ web_link_tags up (strip (or_empty (row ''links''))) (lower (or_empty (row ''sender'')))
         (lower (or_empty (row ''subject''))) (lower (or_empty (row ''body'')))
     @ (if lookalike_hint (lower (or_empty (row ''sender'')))
           \<or> lookalike_hint (strip (or_empty (row ''links'')))
        then [''Possible lookalike pattern''] else [])"

text \<open>Example rows.\<close>

definition example_phish :: row where
  "example_phish =
     [''id'' \<mapsto> ''1'', ''sender'' \<mapsto> ''user@real-bank.com'', ''subject'' \<mapsto> ''Account Suspended'',
      ''links'' \<mapsto> ''http://totally-fake.example/login'', ''attachments'' \<mapsto> ''invoice.exe'']"

definition example_id_only :: row where
  "example_id_only = [''id'' \<mapsto> ''7'']"

definition example_sender_keyword :: row where
  "example_sender_keyword =
     [''id'' \<mapsto> ''2'', ''sender'' \<mapsto> ''verify@example.com'', ''subject'' \<mapsto> ''Hello'',
      ''body'' \<mapsto> ''See you soon'']"

definition example_digit_link :: row where
  "example_digit_link =
     [''id'' \<mapsto> ''3'', ''sender'' \<mapsto> ''alice@example.com'', ''subject'' \<mapsto> ''Lunch'',
      ''links'' \<mapsto> ''https://example.com/a2'']"

definition example_brand_no_link :: row where
  "example_brand_no_link =
     [''id'' \<mapsto> ''4'', ''sender'' \<mapsto> ''Amazon Support <billing@evil.example>'',
      ''subject'' \<mapsto> ''Your order'']"

definition example_two_brands :: row where
  "example_two_brands =
     [''id'' \<mapsto> ''5'', ''sender'' \<mapsto> ''PayPal Amazon <x@evil.example>'',
      ''links'' \<mapsto> ''https://evil.example/pay'']"

definition example_brands_link_none :: row where
  "example_brands_link_none =
     [''id'' \<mapsto> ''6'', ''sender'' \<mapsto> ''paypal-billing@evil.example'',
      ''subject'' \<mapsto> ''Your Apple ID'', ''links'' \<mapsto> ''none'']"

text \<open>Example lists of scored records; the second carries an identifier beside the score.\<close>

definition example_eleven :: "scored list" where
  "example_eleven = map (\<lambda>n. \<lparr>score = n\<rparr>) [1, 2, 3, 4, 5, 6, 7, 8, 9, 10, 11]"

record scored_email = scored +
  email_id :: string

definition example_scored :: "scored_email list" where
  "example_scored =
     [\<lparr>score = 5, email_id = ''a''\<rparr>, \<lparr>score = 8, email_id = ''b''\<rparr>,
      \<lparr>score = 5, email_id = ''c''\<rparr>, \<lparr>score = 2, email_id = ''d''\<rparr>]"

section \<open>Auxiliary lemmas\<close>

lemma lower_Nil [simp]: "lower [] = []"
  by (simp add: lower_def)

lemma lower_Cons [simp]: "lower (c # s) = lower_char c # lower s"
  by (simp add: lower_def)

lemma lower_append [simp]: "lower (s @ t) = lower s @ lower t"
  by (simp add: lower_def)

lemma lower_char_Char [simp]:
  "lower_char (Char b0 b1 b2 b3 b4 b5 b6 b7) =
     (if \<not> b7 \<and> b6 \<and> \<not> b5 \<and> ((b0 \<or> b1 \<or> b2 \<or> b3 \<or> b4) \<and> \<not> (b4 \<and> b3 \<and> (b2 \<or> (b1 \<and> b0))))
         \<or> b7 \<and> b6 \<and> \<not> b5 \<and> \<not> (b4 \<and> \<not> b3 \<and> b2 \<and> b1 \<and> b0) \<and> \<not> (b4 \<and> b3 \<and> b2 \<and> b1 \<and> b0)
      then Char b0 b1 b2 b3 b4 True b6 b7 else Char b0 b1 b2 b3 b4 b5 b6 b7)"
  apply (cases b0; cases b1; cases b2; cases b3; cases b4; cases b5; cases b6; cases b7)
  apply (simp_all add: lower_char_def char_of_def bit_Suc_0_iff)
  done

lemma strip_Nil [simp]: "strip [] = []"
  by (simp add: strip_def)

lemma py_in_Nil [simp]: "py_in [] s"
  by (cases s) simp_all

lemma py_in_single [simp]: "py_in [c] s \<longleftrightarrow> c \<in> set s"
  by (induction s) auto

lemma py_in_sublist: "py_in xs ys \<longleftrightarrow> sublist xs ys"
  by (induction ys) (auto simp: sublist_Cons_right)

lemma py_split1_length: "c \<in> set s \<Longrightarrow> length (py_split1 c s) = 2"
  by (simp add: py_split1_def)

lemma py_split_nonempty: "py_split c s \<noteq> []"
  by (induction s) (auto split: list.splits)

lemma domain_from_email_eq: "domain_from_email email = Inr (sender_domain_of email)"
  by (simp add: domain_from_email_def sender_domain_of_def py_split1_def py_index_def)

lemma domain_from_url_eq: "domain_from_url up url = Inr (link_domain_of up url)"
  by (simp add: domain_from_url_def link_domain_of_def split: sum.splits)

lemma emit_Nil [simp]: "emit delta [] a = a"
  by (simp add: emit_def)

lemma emit_emit [simp]: "emit delta ts2 (emit delta ts1 a) = emit delta (ts1 @ ts2) a"
  by (simp add: emit_def)

lemma fire_emit: "delta t = d \<Longrightarrow> fire d t a = emit delta [t] a"
  by (simp add: emit_def fire_def)

lemma if_emit: "(if c then emit delta ts a else a) = emit delta (if c then ts else []) a"
  by simp

lemma emit_start: "emit delta ts (0, []) = (sum_list (map delta ts), ts)"
  by (simp add: emit_def)

lemma main_delta_keyword [simp]: "main_delta (main_keyword_tag kw) = 2"
  by (simp add: main_delta_def main_keyword_tag_def)

lemma main_delta_brand [simp]: "main_delta (main_brand_tag b) = 3"
  by (simp add: main_delta_def main_brand_tag_def)

lemma main_delta_fixed [simp]:
  "main_delta ''link:http'' = 3" "main_delta ''link_domain_mismatch'' = 2"
  "main_delta ''lookalike_hint'' = 1" "main_delta ''has_attachment'' = 2"
  "main_delta ''risky_attachment_type'' = 4"
  by (simp_all add: main_delta_def)

lemma keyword_loop_eq:
  "keyword_loop kws text a =
     emit main_delta (map main_keyword_tag (filter (\<lambda>kw. py_in kw text) kws)) a"
proof (induction kws arbitrary: a)
  case Nil
  show ?case by simp
next
  case (Cons kw kws)
  show ?case
    by (simp add: Cons.IH fire_emit [where delta = main_delta])
qed

lemma brand_loop_eq:
  "brand_loop bs sender sd a =
     emit main_delta
       (case find (\<lambda>b. py_in b sender \<and> \<not> py_in b sd) bs of
          None \<Rightarrow> [] | Some b \<Rightarrow> [main_brand_tag b]) a"
  by (induction bs) (simp_all add: fire_emit [where delta = main_delta])

lemma main_link_rules_eq:
  "main_link_rules up links sender (sender_domain_of sender) a =
     Inr (emit main_delta (main_link_tags up links sender) a)"
proof (cases "links \<noteq> [] \<and> lower links \<noteq> ''none''")
  case False
  then show ?thesis
    by (auto simp: main_link_rules_def main_link_tags_def)
next
  case True
  have f1: "fire 3 ''link:http'' b = emit main_delta [''link:http''] b" for b
    by (rule fire_emit) simp
  have f2: "fire 2 ''link_domain_mismatch'' b = emit main_delta [''link_domain_mismatch''] b" for b
    by (rule fire_emit) simp
  have f3: "fire 1 ''lookalike_hint'' b = emit main_delta [''lookalike_hint''] b" for b
    by (rule fire_emit) simp
  have lk: "(py_in ''0'' links \<or> py_in ''-'' (link_domain_of up links) \<and> link_domain_of up links \<noteq> [])
      = (CHR ''0'' \<in> set links \<or> CHR ''-'' \<in> set (link_domain_of up links))"
    by auto
  show ?thesis
    unfolding main_link_rules_def main_link_tags_def main_brand_tags_def domain_from_url_eq
      brand_loop_eq f1 f2 f3 lk Let_def if_emit [of _ main_delta] sum.case
    using True by simp
qed

lemma main_attachment_rules_eq:
  "main_attachment_rules att a = emit main_delta (main_attachment_tags att) a"
proof -
  have f1: "fire 2 ''has_attachment'' b = emit main_delta [''has_attachment''] b" for b
    by (rule fire_emit) simp
  have f2: "fire 4 ''risky_attachment_type'' b = emit main_delta [''risky_attachment_type''] b" for b
    by (rule fire_emit) simp
  show ?thesis
    unfolding main_attachment_rules_def main_attachment_tags_def f1 f2 Let_def
    by simp
qed

lemma main_rules_eq:
  "main_rules up sender subject body links attachments =
     Inr (emit main_delta
            (main_keyword_tags (subject @ '' '' @ body) @ main_link_tags up links sender
             @ main_attachment_tags attachments) (0, []))"
  unfolding main_rules_def domain_from_email_eq sum.case Let_def keyword_loop_eq
    main_link_rules_eq main_attachment_rules_eq main_keyword_tags_def
  by (simp only: emit_emit append_assoc)

lemma main_score_email_eq:
  "main_score_email up row =
     (Inr (sum_list (map main_delta (main_tags up row)), main_tags up row), row)"
  unfolding main_score_email_def dict_get_def Let_def prod.case main_rules_eq emit_start
    main_tags_def
  by (rule refl)

lemma web_delta_keyword [simp]: "web_delta (web_keyword_tag k) = 2"
  by (simp add: web_delta_def web_keyword_tag_def)

lemma web_delta_brand [simp]: "web_delta (web_brand_tag b) = 3"
  by (simp add: web_delta_def web_brand_tag_def)

lemma web_delta_fixed [simp]:
  "web_delta ''Has attachment'' = 2" "web_delta ''HTTP link (not HTTPS)'' = 2"
  "web_delta ''Link domain differs from sender domain'' = 2"
  "web_delta ''Possible lookalike pattern'' = 1"
  by (simp_all add: web_delta_def)

lemma web_keyword_loop_eq:
  "web_keyword_loop ks blob a =
     emit web_delta (map web_keyword_tag (filter (\<lambda>k. py_in k blob) ks)) a"
proof (induction ks arbitrary: a)
  case Nil
  show ?case by simp
next
  case (Cons k ks)
  show ?case
    by (simp add: Cons.IH fire_emit [where delta = web_delta])
qed

lemma web_brand_loop_eq:
  "web_brand_loop items sender subject body a =
     emit web_delta
       (map (\<lambda>item. web_brand_tag (fst item)) (filter (web_brand_fires sender subject body) items)) a"
proof (induction items arbitrary: a)
  case Nil
  show ?case by simp
next
  case (Cons item items)
  obtain brand legit where item: "item = (brand, legit)"
    by (cases item)
  show ?case
    by (simp add: item Cons.IH web_brand_fires_def fire_emit [where delta = web_delta])
qed

lemma py_index_last: "xs \<noteq> [] \<Longrightarrow> py_index xs (- 1) = Inr (last xs)"
  by (cases xs) (simp_all add: py_index_def last_conv_nth nat_diff_distrib' int_ops)

lemma web_sender_domain_eq: "web_sender_domain sender = Inr (web_sender_domain_of sender)"
  by (simp add: web_sender_domain_def web_sender_domain_of_def py_index_last py_split_nonempty)

lemma get_domain_eq2: "get_domain up url = Inr (web_link_domain_of up url)"
  by (simp add: get_domain_def web_link_domain_of_def split: sum.splits)

lemma web_link_rules_eq:
  "web_link_rules up links sender subject body a =
     Inr (emit web_delta (web_link_tags up links sender subject body) a)"
proof (cases "links \<noteq> [] \<and> lower links \<noteq> ''none''")
  case False
  then show ?thesis
    by (auto simp: web_link_rules_def web_link_tags_def)
next
  case True
  have f1: "fire 2 ''HTTP link (not HTTPS)'' b = emit web_delta [''HTTP link (not HTTPS)''] b" for b
    by (rule fire_emit) simp
  have f2: "fire 2 ''Link domain differs from sender domain'' b
      = emit web_delta [''Link domain differs from sender domain''] b" for b
    by (rule fire_emit) simp
  show ?thesis
    unfolding web_link_rules_def web_link_tags_def web_brand_tags_def get_domain_eq2
      web_sender_domain_eq web_brand_loop_eq f1 f2 Let_def sum.case
    using True by simp
qed

lemma web_score_email_eq:
  "web_score_email up row =
     (Inr (sum_list (map web_delta (web_tags up row)), web_tags up row), row)"
proof -
  have f1: "fire 2 ''Has attachment'' b = emit web_delta [''Has attachment''] b" for b
    by (rule fire_emit) simp
  have f2: "fire 1 ''Possible lookalike pattern'' b = emit web_delta [''Possible lookalike pattern''] b" for b
    by (rule fire_emit) simp
  show ?thesis
    unfolding web_score_email_def dict_get_def Let_def prod.case web_keyword_loop_eq
      web_link_rules_eq sum.case f1 f2 web_tags_def web_keyword_tags_def
    by (simp add: emit_def)
qed

lemma index_of_less: "x \<in> set xs \<Longrightarrow> index_of xs x < length xs"
  by (induction xs) auto

lemma sorted_index_filter:
  "distinct (map f xs) \<Longrightarrow> sorted_wrt (<) (map (\<lambda>x. index_of (map f xs) (f x)) (filter P xs))"
proof (induction xs)
  case Nil
  show ?case by simp
next
  case (Cons y ys)
  have tl_eq: "map (\<lambda>x. index_of (map f (y # ys)) (f x)) (filter P ys)
      = map Suc (map (\<lambda>x. index_of (map f ys) (f x)) (filter P ys))"
    using Cons.prems by (auto simp: image_iff)
  have "sorted_wrt (<) (map Suc (map (\<lambda>x. index_of (map f ys) (f x)) (filter P ys)))"
    using Cons by (simp add: sorted_wrt_map del: map_map)
  moreover have "index_of (map f (y # ys)) (f y) = 0"
    by simp
  ultimately show ?case
    using tl_eq by (auto simp del: map_map index_of.simps simp: image_iff)
qed

lemma main_rank_keyword: "main_rank (main_keyword_tag kw) = index_of SUSPICIOUS_KEYWORDS kw"
  by (simp add: main_rank_def main_keyword_tag_def)

lemma main_rank_brand: "main_rank (main_brand_tag b) = 12"
  by (simp add: main_rank_def main_brand_tag_def)

lemma main_rank_fixed:
  "main_rank ''link:http'' = 10" "main_rank ''link_domain_mismatch'' = 11"
  "main_rank ''lookalike_hint'' = 13" "main_rank ''has_attachment'' = 14"
  "main_rank ''risky_attachment_type'' = 15"
  by (simp_all add: main_rank_def)

lemma distinct_SUSPICIOUS_KEYWORDS: "distinct SUSPICIOUS_KEYWORDS"
  by (simp add: SUSPICIOUS_KEYWORDS_def)

lemma main_keyword_ranks:
  "map main_rank (main_keyword_tags text)
     = map (index_of SUSPICIOUS_KEYWORDS) (filter (\<lambda>kw. py_in kw text) SUSPICIOUS_KEYWORDS)"
  by (simp add: main_keyword_tags_def main_rank_keyword)

lemma main_keyword_ranks_sorted: "sorted_wrt (<) (map main_rank (main_keyword_tags text))"
  using sorted_index_filter [of "\<lambda>x. x" SUSPICIOUS_KEYWORDS "\<lambda>kw. py_in kw text"]
  by (simp add: main_keyword_ranks distinct_SUSPICIOUS_KEYWORDS)

lemma main_keyword_ranks_bound: "r \<in> set (main_keyword_tags text) \<Longrightarrow> main_rank r < 10"
proof -
  assume "r \<in> set (main_keyword_tags text)"
  then obtain kw where kw: "kw \<in> set SUSPICIOUS_KEYWORDS" and r: "r = main_keyword_tag kw"
    by (auto simp: main_keyword_tags_def)
  have "length SUSPICIOUS_KEYWORDS = 10"
    by (simp add: SUSPICIOUS_KEYWORDS_def)
  with index_of_less [OF kw] show ?thesis
    by (simp add: r main_rank_keyword)
qed

lemma main_link_ranks:
  "sorted_wrt (<) (map main_rank (main_link_tags up links sender))
   \<and> (\<forall>r \<in> set (main_link_tags up links sender). 10 \<le> main_rank r \<and> main_rank r < 14)"
  by (simp add: main_link_tags_def main_brand_tags_def main_rank_fixed main_rank_brand
      sorted_wrt_append split: option.splits)

lemma main_attachment_ranks:
  "sorted_wrt (<) (map main_rank (main_attachment_tags att))
   \<and> (\<forall>r \<in> set (main_attachment_tags att). 14 \<le> main_rank r)"
  by (simp add: main_attachment_tags_def main_rank_fixed)

lemma main_tags_sorted: "sorted_wrt (<) (map main_rank (main_tags up row))"
  unfolding main_tags_def map_append sorted_wrt_append
  using main_keyword_ranks_sorted main_keyword_ranks_bound main_link_ranks main_attachment_ranks
  by fastforce

lemma main_delta_nonneg: "0 \<le> main_delta r"
  by (simp add: main_delta_def)

lemma web_delta_nonneg: "0 \<le> web_delta r"
  by (simp add: web_delta_def)

lemma sum_nonneg: "(\<And>r. 0 \<le> f r) \<Longrightarrow> 0 \<le> sum_list (map f rs)" for f :: "string \<Rightarrow> int"
  by (induction rs) simp_all

lemma web_rank_keyword: "web_rank (web_keyword_tag k) = index_of KEYWORDS k"
  by (simp add: web_rank_def web_keyword_tag_def)

lemma web_rank_brand: "web_rank (web_brand_tag b) = 12 + index_of (map fst BRANDS) b"
  by (simp add: web_rank_def web_brand_tag_def)

lemma web_rank_fixed:
  "web_rank ''Has attachment'' = 9" "web_rank ''HTTP link (not HTTPS)'' = 10"
  "web_rank ''Link domain differs from sender domain'' = 11"
  "web_rank ''Possible lookalike pattern'' = 16"
  by (simp_all add: web_rank_def)

lemma distinct_KEYWORDS: "distinct KEYWORDS"
  by (simp add: KEYWORDS_def)

lemma distinct_BRANDS: "distinct (map fst BRANDS)"
  by (simp add: BRANDS_def)

lemma web_keyword_ranks_sorted: "sorted_wrt (<) (map web_rank (web_keyword_tags blob))"
  using sorted_index_filter [of "\<lambda>x. x" KEYWORDS "\<lambda>k. py_in k blob"]
  by (simp add: web_keyword_tags_def web_rank_keyword distinct_KEYWORDS comp_def)

lemma web_keyword_ranks_bound: "r \<in> set (web_keyword_tags blob) \<Longrightarrow> web_rank r < 9"
proof -
  assume "r \<in> set (web_keyword_tags blob)"
  then obtain k where k: "k \<in> set KEYWORDS" and r: "r = web_keyword_tag k"
    by (auto simp: web_keyword_tags_def)
  have "length KEYWORDS = 9"
    by (simp add: KEYWORDS_def)
  with index_of_less [OF k] show ?thesis
    by (simp add: r web_rank_keyword)
qed

lemma web_brand_ranks_sorted: "sorted_wrt (<) (map web_rank (web_brand_tags sender subject body))"
proof -
  have "sorted_wrt (<) (map (\<lambda>x. index_of (map fst BRANDS) (fst x))
          (filter (web_brand_fires sender subject body) BRANDS))"
    by (rule sorted_index_filter) (rule distinct_BRANDS)
  then show ?thesis
    by (simp add: web_brand_tags_def web_rank_brand comp_def sorted_wrt_map)
qed

lemma web_brand_ranks_bound:
  "r \<in> set (web_brand_tags sender subject body) \<Longrightarrow> 12 \<le> web_rank r \<and> web_rank r < 16"
proof -
  assume "r \<in> set (web_brand_tags sender subject body)"
  then obtain item where item: "item \<in> set BRANDS" and r: "r = web_brand_tag (fst item)"
    by (auto simp: web_brand_tags_def)
  have "fst item \<in> set (map fst BRANDS)"
    using item by simp
  from index_of_less [OF this] have "index_of (map fst BRANDS) (fst item) < 4"
    by (simp add: BRANDS_def)
  then show ?thesis
    by (simp add: r web_rank_brand)
qed

lemma web_link_ranks:
  "sorted_wrt (<) (map web_rank (web_link_tags up links sender subject body))
   \<and> (\<forall>r \<in> set (web_link_tags up links sender subject body). 10 \<le> web_rank r \<and> web_rank r < 16)"
proof -
  have b: "\<forall>r \<in> set (web_brand_tags sender subject body). 12 \<le> web_rank r \<and> web_rank r < 16"
    using web_brand_ranks_bound by blast
  show ?thesis
    using web_brand_ranks_sorted [of sender subject body] b
    by (fastforce simp: web_link_tags_def web_rank_fixed sorted_wrt_append)
qed

lemma web_tags_sorted: "sorted_wrt (<) (map web_rank (web_tags up row))"
  unfolding web_tags_def map_append sorted_wrt_append
  using web_keyword_ranks_sorted web_keyword_ranks_bound web_link_ranks
  by (fastforce simp: web_rank_fixed)

lemma tl_dropWhile_drop:
  "tl (dropWhile P xs) = drop (Suc (length (takeWhile P xs))) xs"
  by (induction xs) simp_all

lemma no_keyword_in_space:
  "main_keyword_tags '' '' = []" "web_keyword_tags ''  '' = []"
  by (simp_all add: main_keyword_tags_def web_keyword_tags_def SUSPICIOUS_KEYWORDS_def KEYWORDS_def)

lemma lookalike_hint_Nil: "\<not> lookalike_hint []"
  by (simp add: lookalike_hint_def)

lemma netloc_without_slash:
  assumes "CHR ''/'' \<notin> set url"
  shows "urlsplit_netloc ok url = Inr []"
proof -
  define u where "u = strip_scheme (filter (\<lambda>c. \<not> unsafe_url_byte c) (dropWhile c0_control_or_space url))"
  have "set u \<subseteq> set url"
    unfolding u_def strip_scheme_def Let_def
    using set_dropWhileD set_drop_subset by (fastforce split: if_splits)
  then have "CHR ''/'' \<notin> set u"
    using assms by blast
  then have "take 2 u \<noteq> ''//''"
    by (metis in_set_takeD list.set_intros(1))
  then show ?thesis
    by (simp add: urlsplit_netloc_def u_def Let_def)
qed

lemma py_sort_reverse_filter:
  "filter P (py_sort_reverse key xs) = py_sort_reverse key (filter P xs)"
proof -
  have "filter P (rev (sort_key key (rev xs))) = rev (filter P (sort_key key (rev xs)))"
    by (simp only: rev_filter)
  also have "\<dots> = rev (sort_key key (filter P (rev xs)))"
    by (simp only: filter_sort)
  also have "\<dots> = rev (sort_key key (rev (filter P xs)))"
    by (simp only: rev_filter)
  finally show ?thesis
    by (simp only: py_sort_reverse_def)
qed

lemma py_sort_reverse_mset: "mset (py_sort_reverse key xs) = mset xs"
  by (simp add: py_sort_reverse_def)

lemma py_sort_reverse_descending:
  "sorted_wrt (\<lambda>a b. key b \<le> key a) (py_sort_reverse key xs)"
proof -
  have "sorted (map key (sort_key key (rev xs)))"
    by simp
  then have "sorted_wrt (\<lambda>a b. key a \<le> key b) (sort_key key (rev xs))"
    by (simp only: sorted_wrt_map)
  then show ?thesis
    unfolding py_sort_reverse_def by (simp only: sorted_wrt_rev)
qed

lemma py_sort_reverse_stable:
  "filter (\<lambda>r. key r = k) (py_sort_reverse key xs) = filter (\<lambda>r. key r = k) xs"
proof -
  have "filter (\<lambda>r. key r = k) (rev (sort_key key (rev xs)))
      = rev (filter (\<lambda>r. key r = k) (sort_key key (rev xs)))"
    by (simp only: rev_filter)
  also have "\<dots> = rev (filter (\<lambda>r. key r = k) (rev xs))"
    by (simp only: sort_key_stable)
  also have "\<dots> = filter (\<lambda>r. key r = k) xs"
    by (simp only: rev_filter rev_rev_ident)
  finally show ?thesis
    by (simp only: py_sort_reverse_def)
qed

lemma count_list_map_filter:
  assumes "inj f" "distinct xs"
  shows "count_list (map f (filter P xs)) (f x) = (if x \<in> set xs \<and> P x then 1 else 0)"
  using assms(2)
proof (induction xs)
  case Nil
  show ?case by simp
next
  case (Cons y ys)
  have "f y = f x \<longleftrightarrow> y = x"
    using assms(1) by (auto dest: injD)
  with Cons show ?case
    by auto
qed

lemma inj_main_keyword_tag: "inj main_keyword_tag"
  by (rule injI) (simp add: main_keyword_tag_def)

lemma inj_main_brand_tag: "inj main_brand_tag"
  by (rule injI) (simp add: main_brand_tag_def)

lemma inj_web_keyword_tag: "inj web_keyword_tag"
  by (rule injI) (simp add: web_keyword_tag_def)

lemma inj_web_brand_tag: "inj web_brand_tag"
  by (rule injI) (simp add: web_brand_tag_def)

lemma main_keyword_tag_neq [simp]:
  "main_keyword_tag kw \<noteq> ''link:http''" "main_keyword_tag kw \<noteq> ''link_domain_mismatch''"
  "main_keyword_tag kw \<noteq> ''lookalike_hint''" "main_keyword_tag kw \<noteq> ''has_attachment''"
  "main_keyword_tag kw \<noteq> ''risky_attachment_type''" "main_keyword_tag kw \<noteq> main_brand_tag b"
  "''lookalike_hint'' \<noteq> main_keyword_tag kw"
  "\<not> prefix ''brand_domain_mismatch:'' (main_keyword_tag kw)"
  by (simp_all add: main_keyword_tag_def main_brand_tag_def)

lemma main_brand_tag_neq [simp]:
  "main_brand_tag b \<noteq> ''link:http''" "main_brand_tag b \<noteq> ''link_domain_mismatch''"
  "main_brand_tag b \<noteq> ''lookalike_hint''" "main_brand_tag b \<noteq> ''has_attachment''"
  "main_brand_tag b \<noteq> ''risky_attachment_type''" "main_brand_tag b \<noteq> main_keyword_tag kw"
  "''lookalike_hint'' \<noteq> main_brand_tag b"
  "prefix ''brand_domain_mismatch:'' (main_brand_tag b)"
  by (simp_all add: main_keyword_tag_def main_brand_tag_def)

lemma web_keyword_tag_neq [simp]:
  "web_keyword_tag k \<noteq> ''Has attachment''" "web_keyword_tag k \<noteq> ''HTTP link (not HTTPS)''"
  "web_keyword_tag k \<noteq> ''Link domain differs from sender domain''"
  "web_keyword_tag k \<noteq> ''Possible lookalike pattern''" "web_keyword_tag k \<noteq> web_brand_tag b"
  "''Possible lookalike pattern'' \<noteq> web_keyword_tag k"
  "\<not> prefix ''Brand/domain mismatch: '' (web_keyword_tag k)"
  by (simp_all add: web_keyword_tag_def web_brand_tag_def)

lemma web_brand_tag_neq [simp]:
  "web_brand_tag b \<noteq> ''Has attachment''" "web_brand_tag b \<noteq> ''HTTP link (not HTTPS)''"
  "web_brand_tag b \<noteq> ''Link domain differs from sender domain''"
  "web_brand_tag b \<noteq> ''Possible lookalike pattern''" "web_brand_tag b \<noteq> web_keyword_tag k"
  "''Possible lookalike pattern'' \<noteq> web_brand_tag b"
  "prefix ''Brand/domain mismatch: '' (web_brand_tag b)"
  by (simp_all add: web_keyword_tag_def web_brand_tag_def)

lemma count_main_keyword_tags:
  "count_list (main_keyword_tags text) (main_keyword_tag kw)
     = (if kw \<in> set SUSPICIOUS_KEYWORDS \<and> py_in kw text then 1 else 0)"
  unfolding main_keyword_tags_def
  by (rule count_list_map_filter [OF inj_main_keyword_tag distinct_SUSPICIOUS_KEYWORDS])

lemma count_web_keyword_tags:
  "count_list (web_keyword_tags blob) (web_keyword_tag k)
     = (if k \<in> set KEYWORDS \<and> py_in k blob then 1 else 0)"
  unfolding web_keyword_tags_def
  by (rule count_list_map_filter [OF inj_web_keyword_tag distinct_KEYWORDS])

lemma main_keyword_tags_other:
  "t \<notin> range main_keyword_tag \<Longrightarrow> count_list (main_keyword_tags text) t = 0"
  by (auto simp: main_keyword_tags_def count_list_0_iff)

lemma web_keyword_tags_other:
  "t \<notin> range web_keyword_tag \<Longrightarrow> count_list (web_keyword_tags blob) t = 0"
  by (auto simp: web_keyword_tags_def count_list_0_iff)

lemma web_brand_tags_other:
  "t \<notin> range web_brand_tag \<Longrightarrow> count_list (web_brand_tags sender subject body) t = 0"
  by (auto simp: web_brand_tags_def count_list_0_iff)

lemma main_keyword_in_link_tags:
  "count_list (main_link_tags up links sender) (main_keyword_tag kw) = 0"
  by (simp add: main_link_tags_def main_brand_tags_def split: option.splits)

lemma main_keyword_in_attachment_tags:
  "count_list (main_attachment_tags att) (main_keyword_tag kw) = 0"
  by (simp add: main_attachment_tags_def)

lemma count_main_tags_keyword:
  "count_list (main_tags up row) (main_keyword_tag kw)
     = (if kw \<in> set SUSPICIOUS_KEYWORDS
           \<and> py_in kw (lower (or_empty (row ''subject'')) @ '' '' @ lower (or_empty (row ''body'')))
        then 1 else 0)"
  unfolding main_tags_def count_list_append count_main_keyword_tags main_keyword_in_link_tags
    main_keyword_in_attachment_tags
  by simp

lemma web_keyword_in_link_tags:
  "count_list (web_link_tags up links sender subject body) (web_keyword_tag k) = 0"
proof -
  have "web_keyword_tag k \<notin> range web_brand_tag"
    by auto
  then show ?thesis
    by (simp add: web_link_tags_def web_brand_tags_other)
qed

lemma count_web_tags_keyword:
  "count_list (web_tags up row) (web_keyword_tag k)
     = (if k \<in> set KEYWORDS
           \<and> py_in k (lower (or_empty (row ''sender'')) @ '' '' @ lower (or_empty (row ''subject''))
                      @ '' '' @ lower (or_empty (row ''body'')))
        then 1 else 0)"
  unfolding web_tags_def count_list_append count_web_keyword_tags web_keyword_in_link_tags
  by simp

lemma lookalike_not_keyword: "''lookalike_hint'' \<notin> range main_keyword_tag"
  by auto

lemma count_main_tags_lookalike:
  "count_list (main_tags up row) ''lookalike_hint''
     = (if strip (or_empty (row ''links'')) \<noteq> [] \<and> lower (strip (or_empty (row ''links''))) \<noteq> ''none''
           \<and> (CHR ''0'' \<in> set (strip (or_empty (row ''links'')))
               \<or> CHR ''-'' \<in> set (link_domain_of up (strip (or_empty (row ''links'')))))
        then 1 else 0)"
  unfolding main_tags_def count_list_append main_keyword_tags_other [OF lookalike_not_keyword]
  by (simp add: main_link_tags_def main_brand_tags_def main_attachment_tags_def split: option.splits)

lemma web_lookalike_not_keyword: "''Possible lookalike pattern'' \<notin> range web_keyword_tag"
  by auto

lemma web_lookalike_not_brand: "''Possible lookalike pattern'' \<notin> range web_brand_tag"
  by auto

lemma count_web_tags_lookalike:
  "count_list (web_tags up row) ''Possible lookalike pattern''
     = (if lookalike_hint (lower (or_empty (row ''sender'')))
           \<or> lookalike_hint (strip (or_empty (row ''links'')))
        then 1 else 0)"
  unfolding web_tags_def count_list_append web_keyword_tags_other [OF web_lookalike_not_keyword]
  by (simp add: web_link_tags_def web_brand_tags_other [OF web_lookalike_not_brand])

lemma filter_main_keyword_tags_brand:
  "filter (prefix ''brand_domain_mismatch:'') (main_keyword_tags text) = []"
  by (auto simp: main_keyword_tags_def filter_empty_conv)

lemma filter_main_tags_brand:
  "filter (prefix ''brand_domain_mismatch:'') (main_tags up row)
     = (if strip (or_empty (row ''links'')) \<noteq> [] \<and> lower (strip (or_empty (row ''links''))) \<noteq> ''none''
        then main_brand_tags (lower (or_empty (row ''sender'')))
               (sender_domain_of (lower (or_empty (row ''sender''))))
        else [])"
  unfolding main_tags_def filter_append filter_main_keyword_tags_brand
  by (simp add: main_link_tags_def main_brand_tags_def main_attachment_tags_def split: option.splits)

lemma filter_web_keyword_tags_brand:
  "filter (prefix ''Brand/domain mismatch: '') (web_keyword_tags blob) = []"
  by (auto simp: web_keyword_tags_def filter_empty_conv)

lemma filter_web_brand_tags:
  "filter (prefix ''Brand/domain mismatch: '') (web_brand_tags sender subject body)
     = web_brand_tags sender subject body"
  by (auto simp: web_brand_tags_def)

lemma filter_web_tags_brand:
  "filter (prefix ''Brand/domain mismatch: '') (web_tags up row)
     = (if strip (or_empty (row ''links'')) \<noteq> [] \<and> lower (strip (or_empty (row ''links''))) \<noteq> ''none''
        then web_brand_tags (lower (or_empty (row ''sender''))) (lower (or_empty (row ''subject'')))
               (lower (or_empty (row ''body'')))
        else [])"
  unfolding web_tags_def filter_append filter_web_keyword_tags_brand
  by (simp add: web_link_tags_def filter_web_brand_tags)

lemma lower_char_idem: "lower_char (lower_char c) = lower_char c"
  by (cases c) (simp split: if_splits)

lemma lower_idem: "lower (lower s) = lower s"
  by (simp add: lower_def lower_char_idem)

lemma web_brand_fires_case:
  "web_brand_fires sender subject body
     = (\<lambda>(brand, legit_domains).
          (py_in brand sender \<or> py_in brand subject \<or> py_in brand body)
          \<and> \<not> list_ex (\<lambda>d. py_in d sender) legit_domains)"
  by (auto simp: web_brand_fires_def fun_eq_iff)

lemma main_brand_tag_eq: "main_brand_tag a = main_brand_tag b \<longleftrightarrow> a = b"
  using inj_main_brand_tag by (auto dest: injD)

lemma web_brand_tag_eq: "web_brand_tag a = web_brand_tag b \<longleftrightarrow> a = b"
  using inj_web_brand_tag by (auto dest: injD)

lemma count_main_tags_brand_exact:
  "count_list (main_tags up row) (main_brand_tag brand)
     = (if strip (or_empty (row ''links'')) \<noteq> [] \<and> lower (strip (or_empty (row ''links''))) \<noteq> ''none''
           \<and> find (\<lambda>b. py_in b (lower (or_empty (row ''sender'')))
                       \<and> \<not> py_in b (sender_domain_of (lower (or_empty (row ''sender'')))))
                 BRAND_KEYWORDS = Some brand
        then 1 else 0)"
proof -
  have "main_brand_tag brand \<notin> range main_keyword_tag"
    by auto
  then have k: "count_list (main_keyword_tags t) (main_brand_tag brand) = 0" for t
    by (rule main_keyword_tags_other)
  show ?thesis
    unfolding main_tags_def count_list_append k
    by (auto simp: main_link_tags_def main_brand_tags_def main_attachment_tags_def
        main_brand_tag_eq split: option.splits)
qed

lemma count_web_brand_tags_exact:
  "count_list (web_brand_tags sender subject body) (web_brand_tag brand)
     = (if list_ex (\<lambda>item. fst item = brand \<and> web_brand_fires sender subject body item) BRANDS
        then 1 else 0)"
  by (auto simp: web_brand_tags_def BRANDS_def web_brand_tag_eq)

lemma count_web_tags_brand_exact:
  "count_list (web_tags up row) (web_brand_tag brand)
     = (if strip (or_empty (row ''links'')) \<noteq> [] \<and> lower (strip (or_empty (row ''links''))) \<noteq> ''none''
           \<and> list_ex (\<lambda>item. fst item = brand
                  \<and> web_brand_fires (lower (or_empty (row ''sender''))) (lower (or_empty (row ''subject'')))
                       (lower (or_empty (row ''body''))) item) BRANDS
        then 1 else 0)"
proof -
  have "web_brand_tag brand \<notin> range web_keyword_tag"
    by auto
  then have k: "count_list (web_keyword_tags blob) (web_brand_tag brand) = 0" for blob
    by (rule web_keyword_tags_other)
  show ?thesis
    unfolding web_tags_def count_list_append k
    by (simp add: web_link_tags_def count_web_brand_tags_exact)
qed

section \<open>The claims\<close>

text \<open>
  Claim C1. For every input record, \<^verbatim>\<open>score_email\<close> returns a score that is at least 0 and
  equals the sum of the fixed point deltas of the reasons it returns, and the reasons appear
  in rule-evaluation order. Stated for both profiles and for any URL parser: the call
  returns, the score is the sum of the deltas of the returned tags, and the ranks of the
  returned tags increase strictly (so no tag is returned twice).
\<close>

theorem score_is_sum_of_reason_deltas:
  "(\<exists>s rs. fst (main_score_email up row) = Inr (s, rs)
      \<and> 0 \<le> s \<and> s = sum_list (map main_delta rs) \<and> sorted_wrt (<) (map main_rank rs))
   \<and> (\<exists>s rs. fst (web_score_email up row) = Inr (s, rs)
      \<and> 0 \<le> s \<and> s = sum_list (map web_delta rs) \<and> sorted_wrt (<) (map web_rank rs))"
  by (simp add: main_score_email_eq web_score_email_eq main_tags_sorted web_tags_sorted
      sum_nonneg main_delta_nonneg web_delta_nonneg del: sorted_wrt_map)

theorem score_is_sum_of_reason_deltas_witness:
  "fst (main_score_email urlparse_netloc example_phish) =
     Inr (14, [''keyword:suspended'', ''link:http'', ''link_domain_mismatch'', ''lookalike_hint'',
               ''has_attachment'', ''risky_attachment_type''])
   \<and> sum_list (map main_delta [''keyword:suspended'', ''link:http'', ''link_domain_mismatch'',
        ''lookalike_hint'', ''has_attachment'', ''risky_attachment_type'']) = 14
   \<and> map main_rank [''keyword:suspended'', ''link:http'', ''link_domain_mismatch'',
        ''lookalike_hint'', ''has_attachment'', ''risky_attachment_type''] = [2, 10, 11, 13, 14, 15]
   \<and> fst (web_score_email urlparse_netloc example_phish) =
     Inr (8, [web_keyword_tag ''suspended'', ''Has attachment'', ''HTTP link (not HTTPS)'',
              ''Link domain differs from sender domain''])
   \<and> sum_list (map web_delta [web_keyword_tag ''suspended'', ''Has attachment'',
        ''HTTP link (not HTTPS)'', ''Link domain differs from sender domain'']) = 8"
proof -
  have m: "fst (main_score_email urlparse_netloc example_phish) =
     Inr (14, [''keyword:suspended'', ''link:http'', ''link_domain_mismatch'', ''lookalike_hint'',
               ''has_attachment'', ''risky_attachment_type''])"
    by code_simp
  have w: "fst (web_score_email urlparse_netloc example_phish) =
     Inr (8, [web_keyword_tag ''suspended'', ''Has attachment'', ''HTTP link (not HTTPS)'',
              ''Link domain differs from sender domain''])"
    by code_simp
  have r: "map main_rank [''keyword:suspended'', ''link:http'', ''link_domain_mismatch'',
        ''lookalike_hint'', ''has_attachment'', ''risky_attachment_type''] = [2, 10, 11, 13, 14, 15]"
    by code_simp
  show ?thesis
    using score_is_sum_of_reason_deltas [of urlparse_netloc example_phish] m w r
    by simp
qed

text \<open>
  Claim C2, as amended. The brand rule sits inside the link block of both profiles, so it
  depends on the links field. For every record and every brand: in the CLI profile the
  brand's \<^verbatim>\<open>brand_domain_mismatch\<close> tag is returned once, worth +3, when the trimmed links
  field is non-empty and not \<^verbatim>\<open>none\<close> (in any case) and the brand is the first of the
  configured brands that occurs in the lower-case sender and not in the sender's domain; it
  is not returned otherwise, so a later matching brand gets none. In the web profile the
  brand's tag is returned once, worth +3, when the links field passes the same test and the
  brand is one of \<open>BRANDS\<close>, occurs in the lower-case sender, subject or body, and none of
  its legitimate domains occurs in the sender; it is not returned otherwise. With an empty
  or \<^verbatim>\<open>none\<close> links field neither profile returns a brand tag.
\<close>

theorem brand_rule_behind_link_gate:
  assumes "links = strip (or_empty (row ''links''))"
    and "sender = lower (or_empty (row ''sender''))"
    and "subject = lower (or_empty (row ''subject''))"
    and "body = lower (or_empty (row ''body''))"
    and "domain_from_email sender = Inr sender_domain"
  shows "(\<exists>s rs. fst (main_score_email up row) = Inr (s, rs)
      \<and> s = sum_list (map main_delta rs) \<and> main_delta (main_brand_tag brand) = 3
      \<and> count_list rs (main_brand_tag brand)
          = (if links \<noteq> [] \<and> lower links \<noteq> ''none''
                \<and> find (\<lambda>b. py_in b sender \<and> \<not> py_in b sender_domain) BRAND_KEYWORDS = Some brand
             then 1 else 0))
   \<and> (\<exists>s rs. fst (web_score_email up row) = Inr (s, rs)
      \<and> s = sum_list (map web_delta rs) \<and> web_delta (web_brand_tag brand) = 3
      \<and> count_list rs (web_brand_tag brand)
          = (if links \<noteq> [] \<and> lower links \<noteq> ''none''
                \<and> list_ex (\<lambda>(b, legit_domains). b = brand
                       \<and> (py_in b sender \<or> py_in b subject \<or> py_in b body)
                       \<and> \<not> list_ex (\<lambda>d. py_in d sender) legit_domains) BRANDS
             then 1 else 0))"
proof -
  have sd: "sender_domain = sender_domain_of sender"
    using assms(5) by (simp add: domain_from_email_eq)
  have c: "(\<lambda>item. fst item = brand \<and> web_brand_fires x y z item)
      = (\<lambda>(b, legit_domains). b = brand
           \<and> (py_in b x \<or> py_in b y \<or> py_in b z)
           \<and> \<not> list_ex (\<lambda>d. py_in d x) legit_domains)" for x y z
    by (auto simp: web_brand_fires_def fun_eq_iff)
  have m: "count_list (main_tags up row) (main_brand_tag brand)
      = (if links \<noteq> [] \<and> lower links \<noteq> ''none''
            \<and> find (\<lambda>b. py_in b sender \<and> \<not> py_in b sender_domain) BRAND_KEYWORDS = Some brand
         then 1 else 0)"
    by (simp only: count_main_tags_brand_exact assms(1,2) sd)
  have w: "count_list (web_tags up row) (web_brand_tag brand)
      = (if links \<noteq> [] \<and> lower links \<noteq> ''none''
            \<and> list_ex (\<lambda>(b, legit_domains). b = brand
                   \<and> (py_in b sender \<or> py_in b subject \<or> py_in b body)
                   \<and> \<not> list_ex (\<lambda>d. py_in d sender) legit_domains) BRANDS
         then 1 else 0)"
    by (simp only: count_web_tags_brand_exact assms(1-4) c)
  show ?thesis
    using m w by (simp add: main_score_email_eq web_score_email_eq)
qed

theorem brand_rule_behind_link_gate_witness:
  "fst (main_score_email urlparse_netloc example_two_brands) =
     Inr (5, [''link_domain_mismatch'', ''brand_domain_mismatch:amazon''])
   \<and> count_list [''link_domain_mismatch'', ''brand_domain_mismatch:amazon'']
        ''brand_domain_mismatch:amazon'' = 1
   \<and> count_list [''link_domain_mismatch'', ''brand_domain_mismatch:amazon'']
        ''brand_domain_mismatch:paypal'' = 0
   \<and> (\<exists>s rs. fst (web_score_email urlparse_netloc example_two_brands) = Inr (s, rs)
        \<and> count_list rs ''Brand/domain mismatch: paypal'' = 1
        \<and> count_list rs ''Brand/domain mismatch: netflix'' = 0)"
proof -
  have h1: "''https://evil.example/pay'' = strip (or_empty (example_two_brands ''links''))"
    by code_simp
  have h2: "''paypal amazon <x@evil.example>'' = lower (or_empty (example_two_brands ''sender''))"
    by code_simp
  have h3: "[] = lower (or_empty (example_two_brands ''subject''))"
    by code_simp
  have h4: "[] = lower (or_empty (example_two_brands ''body''))"
    by code_simp
  have h5: "domain_from_email ''paypal amazon <x@evil.example>'' = Inr ''evil.example>''"
    by code_simp
  have g: "''https://evil.example/pay'' \<noteq> [] \<and> lower ''https://evil.example/pay'' \<noteq> ''none''"
    by simp
  have f: "find (\<lambda>b. py_in b ''paypal amazon <x@evil.example>'' \<and> \<not> py_in b ''evil.example>'')
             BRAND_KEYWORDS = Some ''amazon''"
    by (simp add: BRAND_KEYWORDS_def)
  have b1: "list_ex (\<lambda>(b, legit_domains). b = ''paypal''
               \<and> (py_in b ''paypal amazon <x@evil.example>'' \<or> py_in b [] \<or> py_in b [])
               \<and> \<not> list_ex (\<lambda>d. py_in d ''paypal amazon <x@evil.example>'') legit_domains) BRANDS"
    by (simp add: BRANDS_def)
  have b2: "\<not> list_ex (\<lambda>(b, legit_domains). b = ''netflix''
               \<and> (py_in b ''paypal amazon <x@evil.example>'' \<or> py_in b [] \<or> py_in b [])
               \<and> \<not> list_ex (\<lambda>d. py_in d ''paypal amazon <x@evil.example>'') legit_domains) BRANDS"
    by (simp add: BRANDS_def)
  have m: "fst (main_score_email urlparse_netloc example_two_brands) =
     Inr (5, [''link_domain_mismatch'', ''brand_domain_mismatch:amazon''])"
    by code_simp
  have t: "main_brand_tag ''amazon'' = ''brand_domain_mismatch:amazon''"
    "main_brand_tag ''paypal'' = ''brand_domain_mismatch:paypal''"
    "web_brand_tag ''paypal'' = ''Brand/domain mismatch: paypal''"
    "web_brand_tag ''netflix'' = ''Brand/domain mismatch: netflix''"
    by (simp_all add: main_brand_tag_def web_brand_tag_def)
  note inst = brand_rule_behind_link_gate [OF h1 h2 h3 h4 h5, of urlparse_netloc]
  have a1: "\<exists>s rs. fst (main_score_email urlparse_netloc example_two_brands) = Inr (s, rs)
      \<and> count_list rs (main_brand_tag ''amazon'') = 1"
    using inst [of "''amazon''"] g f by auto
  have a2: "\<exists>s rs. fst (main_score_email urlparse_netloc example_two_brands) = Inr (s, rs)
      \<and> count_list rs (main_brand_tag ''paypal'') = 0"
    using inst [of "''paypal''"] g f by auto
  have w1: "\<exists>s rs. fst (web_score_email urlparse_netloc example_two_brands) = Inr (s, rs)
      \<and> count_list rs (web_brand_tag ''paypal'') = 1"
    using inst [of "''paypal''"] g b1 by auto
  have w2: "\<exists>s rs. fst (web_score_email urlparse_netloc example_two_brands) = Inr (s, rs)
      \<and> count_list rs (web_brand_tag ''netflix'') = 0"
    using inst [of "''netflix''"] g b2 by auto
  from a1 a2 w1 w2 show ?thesis
    unfolding m t by auto
qed

text \<open>
  The statement without the condition on the links field fails: a sender that names Amazon
  from another domain, in a record without links, scores 0 with no reasons in both profiles.
\<close>

theorem brand_without_link_counterexample:
  "lower (or_empty (example_brand_no_link ''sender'')) = ''amazon support <billing@evil.example>''
   \<and> py_in ''amazon'' ''amazon support <billing@evil.example>''
   \<and> domain_from_email ''amazon support <billing@evil.example>'' = Inr ''evil.example>''
   \<and> \<not> py_in ''amazon'' ''evil.example>''
   \<and> \<not> py_in ''amazon.com'' ''amazon support <billing@evil.example>''
   \<and> fst (main_score_email urlparse_netloc example_brand_no_link) = Inr (0, [])
   \<and> fst (web_score_email urlparse_netloc example_brand_no_link) = Inr (0, [])"
  by code_simp

text \<open>
  Claim C3, as amended. The lookalike rule adds +1 and its tag exactly once, and fires: in
  the CLI profile, if and only if the trimmed links field is non-empty, is not \<^verbatim>\<open>none\<close>, and
  contains the character \<^verbatim>\<open>0\<close> or has a hyphen in its domain; in the web profile, if and
  only if the lower-case sender or the lower-case links field contains one of \<^verbatim>\<open>0\<close>,
  \<^verbatim>\<open>1\<close>, \<^verbatim>\<open>secure-\<close>, \<^verbatim>\<open>-secure\<close>, \<^verbatim>\<open>login-\<close>, \<^verbatim>\<open>-login\<close>.
\<close>

theorem lookalike_rule_per_profile:
  assumes "links = strip (or_empty (row ''links''))"
    and "sender = lower (or_empty (row ''sender''))"
    and "domain_from_url up links = Inr link_domain"
  shows "(\<exists>s rs. fst (main_score_email up row) = Inr (s, rs)
      \<and> s = sum_list (map main_delta rs) \<and> main_delta ''lookalike_hint'' = 1
      \<and> count_list rs ''lookalike_hint''
          = (if links \<noteq> [] \<and> lower links \<noteq> ''none''
                \<and> (py_in ''0'' links \<or> py_in ''-'' link_domain)
             then 1 else 0))
   \<and> (\<exists>s rs. fst (web_score_email up row) = Inr (s, rs)
      \<and> s = sum_list (map web_delta rs) \<and> web_delta ''Possible lookalike pattern'' = 1
      \<and> count_list rs ''Possible lookalike pattern''
          = (if list_ex (\<lambda>p. py_in p sender \<or> py_in p (lower links))
                  [''0'', ''1'', ''secure-'', ''-secure'', ''login-'', ''-login'']
             then 1 else 0))"
proof -
  have ld: "link_domain = link_domain_of up (strip (or_empty (row ''links'')))"
    using assms(1,3) by (simp add: domain_from_url_eq)
  have ll: "sender = lower sender"
    by (simp add: assms(2) lower_idem)
  have h: "(lookalike_hint sender \<or> lookalike_hint links)
      = list_ex (\<lambda>p. py_in p sender \<or> py_in p (lower links))
          [''0'', ''1'', ''secure-'', ''-secure'', ''login-'', ''-login'']"
    unfolding lookalike_hint_def Let_def ll [symmetric] by auto
  show ?thesis
    using h by (simp add: main_score_email_eq web_score_email_eq count_main_tags_lookalike
        count_web_tags_lookalike ld assms(1,2))
qed

theorem lookalike_rule_per_profile_witness:
  "fst (main_score_email urlparse_netloc example_phish) =
     Inr (14, [''keyword:suspended'', ''link:http'', ''link_domain_mismatch'', ''lookalike_hint'',
               ''has_attachment'', ''risky_attachment_type''])
   \<and> count_list [''keyword:suspended'', ''link:http'', ''link_domain_mismatch'', ''lookalike_hint'',
               ''has_attachment'', ''risky_attachment_type''] ''lookalike_hint'' = 1
   \<and> py_in ''-'' ''totally-fake.example''
   \<and> (\<exists>s rs. fst (web_score_email urlparse_netloc example_phish) = Inr (s, rs)
         \<and> count_list rs ''Possible lookalike pattern'' = 0)"
proof -
  have h1: "''http://totally-fake.example/login'' = strip (or_empty (example_phish ''links''))"
    by code_simp
  have h2: "''user@real-bank.com'' = lower (or_empty (example_phish ''sender''))"
    by code_simp
  have h3: "domain_from_url urlparse_netloc ''http://totally-fake.example/login''
      = Inr ''totally-fake.example''"
    by code_simp
  have m: "fst (main_score_email urlparse_netloc example_phish) =
     Inr (14, [''keyword:suspended'', ''link:http'', ''link_domain_mismatch'', ''lookalike_hint'',
               ''has_attachment'', ''risky_attachment_type''])"
    by code_simp
  have p: "py_in ''-'' ''totally-fake.example''"
    by simp
  have q: "\<not> list_ex (\<lambda>p. py_in p ''user@real-bank.com''
                \<or> py_in p (lower ''http://totally-fake.example/login''))
              [''0'', ''1'', ''secure-'', ''-secure'', ''login-'', ''-login'']"
    by simp
  show ?thesis
    using lookalike_rule_per_profile [OF h1 h2 h3] m p q by auto
qed

text \<open>
  A digit other than 0 and 1 in the link fires the rule in neither profile.
\<close>

theorem lookalike_digit_counterexample:
  "CHR ''2'' \<in> set (strip (or_empty (example_digit_link ''links'')))
   \<and> fst (main_score_email urlparse_netloc example_digit_link) = Inr (0, [])
   \<and> fst (web_score_email urlparse_netloc example_digit_link) = Inr (0, [])"
  by code_simp

text \<open>
  Claim C4, as amended. For every record and every keyword, the keyword's tag is returned
  once, worth +2, when the keyword is configured and occurs in the searched text, and not at
  all otherwise. The searched text is the lower-case subject, a space and the lower-case
  body in the CLI profile; in the web profile it is the lower-case sender, a space, the
  subject, a space and the body, so a keyword that occurs only in the sender counts there.
\<close>

theorem keyword_rule_per_profile:
  "(\<exists>s rs. fst (main_score_email up row) = Inr (s, rs)
      \<and> s = sum_list (map main_delta rs) \<and> main_delta (main_keyword_tag kw) = 2
      \<and> count_list rs (main_keyword_tag kw)
          = (if kw \<in> set SUSPICIOUS_KEYWORDS
                \<and> py_in kw (lower (or_empty (row ''subject'')) @ '' '' @ lower (or_empty (row ''body'')))
             then 1 else 0))
   \<and> (\<exists>s rs. fst (web_score_email up row) = Inr (s, rs)
      \<and> s = sum_list (map web_delta rs) \<and> web_delta (web_keyword_tag kw) = 2
      \<and> count_list rs (web_keyword_tag kw)
          = (if kw \<in> set KEYWORDS
                \<and> py_in kw (lower (or_empty (row ''sender'')) @ '' '' @ lower (or_empty (row ''subject''))
                            @ '' '' @ lower (or_empty (row ''body'')))
             then 1 else 0))"
  by (simp add: main_score_email_eq web_score_email_eq count_main_tags_keyword
      count_web_tags_keyword)

theorem keyword_rule_per_profile_witness:
  "fst (main_score_email urlparse_netloc example_phish) =
     Inr (14, [''keyword:suspended'', ''link:http'', ''link_domain_mismatch'', ''lookalike_hint'',
               ''has_attachment'', ''risky_attachment_type''])
   \<and> count_list [''keyword:suspended'', ''link:http'', ''link_domain_mismatch'', ''lookalike_hint'',
               ''has_attachment'', ''risky_attachment_type''] ''keyword:suspended'' = 1
   \<and> py_in ''suspended'' ''account suspended ''"
proof -
  have m: "fst (main_score_email urlparse_netloc example_phish) =
     Inr (14, [''keyword:suspended'', ''link:http'', ''link_domain_mismatch'', ''lookalike_hint'',
               ''has_attachment'', ''risky_attachment_type''])"
    by code_simp
  have t: "lower (or_empty (example_phish ''subject'')) @ '' '' @ lower (or_empty (example_phish ''body''))
      = ''account suspended ''"
    by code_simp
  have k: "''suspended'' \<in> set SUSPICIOUS_KEYWORDS" "main_keyword_tag ''suspended'' = ''keyword:suspended''"
    by (simp_all add: SUSPICIOUS_KEYWORDS_def main_keyword_tag_def)
  have p: "py_in ''suspended'' ''account suspended ''"
    by simp
  show ?thesis
    using keyword_rule_per_profile [of urlparse_netloc example_phish "''suspended''"]
    unfolding m t k(2) using k(1) p by simp
qed

text \<open>
  A configured keyword that occurs in the sender only: absent from subject and body, it
  still adds +2 in the web profile (and nothing in the CLI profile).
\<close>

theorem keyword_in_sender_counterexample:
  "''verify'' \<in> set SUSPICIOUS_KEYWORDS \<and> ''verify'' \<in> set KEYWORDS
   \<and> \<not> py_in ''verify'' (lower (or_empty (example_sender_keyword ''subject'')) @ '' ''
                            @ lower (or_empty (example_sender_keyword ''body'')))
   \<and> fst (web_score_email urlparse_netloc example_sender_keyword) = Inr (2, [web_keyword_tag ''verify''])
   \<and> fst (main_score_email urlparse_netloc example_sender_keyword) = Inr (0, [])"
  by code_simp

text \<open>
  Claim C5, as amended. For every input string, \<^verbatim>\<open>domain_from_url\<close> returns a string and
  never raises: when the parser raises, the result is the empty string; otherwise it is the
  lower case, trimmed network location of the parsed URL, whatever the string looks like.
  \<^verbatim>\<open>get_domain\<close> of the web profile does the same without trimming. With the library's
  splitting, a string without a slash (such as \<^verbatim>\<open>"not a url"\<close>) has no network location
  and gives the empty string in both.
\<close>

theorem domain_from_url_never_raises:
  "(\<exists>d. domain_from_url up url = Inr d)
   \<and> (\<forall>e. up url = Inl e \<longrightarrow> domain_from_url up url = Inr [])
   \<and> (\<forall>netloc. up url = Inr netloc \<longrightarrow> domain_from_url up url = Inr (strip (lower netloc)))
   \<and> (\<exists>d. get_domain up url = Inr d)
   \<and> (\<forall>e. up url = Inl e \<longrightarrow> get_domain up url = Inr [])
   \<and> (\<forall>netloc. up url = Inr netloc \<longrightarrow> get_domain up url = Inr (lower netloc))
   \<and> (CHR ''/'' \<notin> set url \<longrightarrow>
        domain_from_url (urlsplit_netloc ok) url = Inr [] \<and> get_domain (urlsplit_netloc ok) url = Inr [])
   \<and> domain_from_url (urlsplit_netloc ok) ''not a url'' = Inr []"
proof -
  have "domain_from_url (urlsplit_netloc ok) u = Inr [] \<and> get_domain (urlsplit_netloc ok) u = Inr []"
    if "CHR ''/'' \<notin> set u" for u
    using netloc_without_slash [OF that, of ok] by (simp add: domain_from_url_def get_domain_def)
  then show ?thesis
    by (auto simp: domain_from_url_def get_domain_def split: sum.splits)
qed

theorem domain_from_url_never_raises_witness:
  "urlparse_netloc ''http://[broken/x'' = Inl ValueError
   \<and> domain_from_url urlparse_netloc ''http://[broken/x'' = Inr []
   \<and> get_domain urlparse_netloc ''http://[broken/x'' = Inr []
   \<and> urlparse_netloc '' HTTP://Example.COM:80 /x?y'' = Inr ''Example.COM:80 ''
   \<and> domain_from_url urlparse_netloc '' HTTP://Example.COM:80 /x?y'' = Inr ''example.com:80''
   \<and> get_domain urlparse_netloc '' HTTP://Example.COM:80 /x?y'' = Inr ''example.com:80 ''
   \<and> domain_from_url urlparse_netloc ''mailto:someone'' = Inr []
   \<and> get_domain urlparse_netloc ''mailto:someone'' = Inr []"
proof -
  have p1: "urlparse_netloc ''http://[broken/x'' = Inl ValueError"
    by code_simp
  have p2: "urlparse_netloc '' HTTP://Example.COM:80 /x?y'' = Inr ''Example.COM:80 ''"
    by code_simp
  have s: "strip (lower ''Example.COM:80 '') = ''example.com:80''"
    "lower ''Example.COM:80 '' = ''example.com:80 ''"
    by code_simp+
  have n: "CHR ''/'' \<notin> set ''mailto:someone''"
    by simp
  show ?thesis
    using domain_from_url_never_raises [of urlparse_netloc "''http://[broken/x''" "\<lambda>host. True"]
      domain_from_url_never_raises [of urlparse_netloc "'' HTTP://Example.COM:80 /x?y''" "\<lambda>host. True"]
      domain_from_url_never_raises [of urlparse_netloc "''mailto:someone''" "\<lambda>host. True"]
      p1 p2 s n
    by (simp add: urlparse_netloc_def)
qed

text \<open>
  A malformed string with an authority part is not turned into the empty string: the text
  between \<^verbatim>\<open>//\<close> and the next slash comes back, and the web profile keeps its trailing
  space.
\<close>

theorem malformed_url_keeps_netloc_counterexample:
  "domain_from_url urlparse_netloc ''http://not a url'' = Inr ''not a url''
   \<and> domain_from_url urlparse_netloc ''//not a url'' = Inr ''not a url''
   \<and> get_domain urlparse_netloc ''http://Example.com /x'' = Inr ''example.com ''"
  by code_simp

text \<open>
  Claim C6. \<^verbatim>\<open>domain_from_address\<close> (\<^verbatim>\<open>domain_from_email\<close> in the code) returns the empty
  string when the input has no \<^verbatim>\<open>@\<close>, and otherwise the lower case, trimmed substring after
  the first \<^verbatim>\<open>@\<close>: the input from the position after the index of the first \<^verbatim>\<open>@\<close>.
  In particular \<^verbatim>\<open>"a@B.COM"\<close> gives \<^verbatim>\<open>"b.com"\<close> and \<^verbatim>\<open>"no-at-sign"\<close> gives \<^verbatim>\<open>""\<close>.
\<close>

theorem domain_from_email_after_first_at:
  "(CHR ''@'' \<notin> set email \<longrightarrow> domain_from_email email = Inr [])
   \<and> (CHR ''@'' \<in> set email \<longrightarrow>
        domain_from_email email =
          Inr (strip (lower (drop (Suc (length (takeWhile (\<lambda>c. c \<noteq> CHR ''@'') email))) email))))
   \<and> domain_from_email ''a@B.COM'' = Inr ''b.com''
   \<and> domain_from_email ''no-at-sign'' = Inr []"
  by (simp add: domain_from_email_eq sender_domain_of_def tl_dropWhile_drop strip_def isspace_def)

theorem domain_from_email_after_first_at_witness:
  "domain_from_email ''Billing <pay@Mail.Example.ORG> '' = Inr ''mail.example.org>''
   \<and> domain_from_email ''a@b@C.d'' = Inr ''b@c.d''
   \<and> domain_from_email ''plain text'' = Inr []"
  using domain_from_email_after_first_at [of "''Billing <pay@Mail.Example.ORG> ''"]
    domain_from_email_after_first_at [of "''a@b@C.d''"]
    domain_from_email_after_first_at [of "''plain text''"]
  by (simp add: strip_def isspace_def)

text \<open>
  Claim C7, as amended. For every list of scored records and threshold \<open>t\<close>, the filtered
  list (\<^verbatim>\<open>filtered\<close> of the CLI, the \<^verbatim>\<open>results\<close> the web view renders) holds exactly the
  records whose score is at least \<open>t\<close>, in descending order of score, records of equal
  score in their input order, and in the relative order of the full sorted list. The CLI
  prints the first ten entries of that list, and its report holds the full sorted list.
\<close>

theorem filtered_list_sorted_stable:
  "mset (main_filtered t xs) = filter_mset (\<lambda>r. t \<le> score r) (mset xs)
   \<and> sorted_wrt (\<lambda>a b. score b \<le> score a) (main_filtered t xs)
   \<and> (\<forall>k. filter (\<lambda>r. score r = k) (main_filtered t xs)
           = filter (\<lambda>r. score r = k) (filter (\<lambda>r. t \<le> score r) xs))
   \<and> main_filtered t xs = filter (\<lambda>r. t \<le> score r) (main_sorted xs)
   \<and> sorted_wrt (\<lambda>a b. score b \<le> score a) (main_sorted xs)
   \<and> (\<forall>k. filter (\<lambda>r. score r = k) (main_sorted xs) = filter (\<lambda>r. score r = k) xs)
   \<and> web_results t xs = main_filtered t xs
   \<and> main_printed t xs = take 10 (main_filtered t xs)"
proof -
  have eq: "main_filtered t xs = py_sort_reverse score (filter (\<lambda>r. t \<le> score r) xs)"
    by (simp only: main_filtered_def main_sorted_def py_sort_reverse_filter)
  have c1: "mset (main_filtered t xs) = filter_mset (\<lambda>r. t \<le> score r) (mset xs)"
    by (simp only: eq py_sort_reverse_mset mset_filter)
  have c2: "sorted_wrt (\<lambda>a b. score b \<le> score a) (main_filtered t xs)"
    by (simp only: eq py_sort_reverse_descending)
  have c3: "filter (\<lambda>r. score r = k) (main_filtered t xs)
      = filter (\<lambda>r. score r = k) (filter (\<lambda>r. t \<le> score r) xs)" for k
    by (simp only: eq py_sort_reverse_stable)
  have c4: "main_filtered t xs = filter (\<lambda>r. t \<le> score r) (main_sorted xs)"
    by (simp only: main_filtered_def)
  have c5: "sorted_wrt (\<lambda>a b. score b \<le> score a) (main_sorted xs)"
    by (simp only: main_sorted_def py_sort_reverse_descending)
  have c6: "filter (\<lambda>r. score r = k) (main_sorted xs) = filter (\<lambda>r. score r = k) xs" for k
    by (simp only: main_sorted_def py_sort_reverse_stable)
  have c7: "web_results t xs = main_filtered t xs"
    by (simp only: eq web_results_def)
  have c8: "main_printed t xs = take 10 (main_filtered t xs)"
    by (simp only: main_printed_def)
  from c1 c2 c3 c4 c5 c6 c7 c8 show ?thesis
    by blast
qed

theorem filtered_list_sorted_stable_witness:
  "main_filtered 3 example_scored
     = [\<lparr>score = 8, email_id = ''b''\<rparr>, \<lparr>score = 5, email_id = ''a''\<rparr>,
        \<lparr>score = 5, email_id = ''c''\<rparr>]
   \<and> web_results 3 example_scored
     = [\<lparr>score = 8, email_id = ''b''\<rparr>, \<lparr>score = 5, email_id = ''a''\<rparr>,
        \<lparr>score = 5, email_id = ''c''\<rparr>]
   \<and> main_printed 3 example_scored = main_filtered 3 example_scored"
proof -
  have e: "main_filtered 3 example_scored
     = [\<lparr>score = 8, email_id = ''b''\<rparr>, \<lparr>score = 5, email_id = ''a''\<rparr>,
        \<lparr>score = 5, email_id = ''c''\<rparr>]"
    by (simp add: main_filtered_def main_sorted_def py_sort_reverse_def example_scored_def)
  show ?thesis
    using filtered_list_sorted_stable [of 3 example_scored] e by simp
qed

text \<open>
  With eleven records at or above the threshold the CLI prints ten of them, and the report
  keeps all eleven whatever the threshold is.
\<close>

theorem printed_list_truncated_counterexample:
  "length (filter (\<lambda>r. 1 \<le> score r) example_eleven) = 11
   \<and> map score (main_printed 1 example_eleven) = [11, 10, 9, 8, 7, 6, 5, 4, 3, 2]
   \<and> \<lparr>score = 1\<rparr> \<in> set example_eleven
   \<and> \<lparr>score = 1\<rparr> \<notin> set (main_printed 1 example_eleven)
   \<and> map score (main_sorted example_eleven) = [11, 10, 9, 8, 7, 6, 5, 4, 3, 2, 1]"
  by (simp add: example_eleven_def main_printed_def main_filtered_def main_sorted_def
      py_sort_reverse_def)

text \<open>
  Claim C8. For every record whose fields are all absent or empty except possibly \<^verbatim>\<open>id\<close>,
  \<^verbatim>\<open>score_email\<close> returns score 0 and no reasons; and it raises for no record at all,
  whatever fields are missing or empty. Both profiles, any URL parser.
\<close>

theorem empty_record_scores_zero:
  "((\<forall>k \<in> {''sender'', ''subject'', ''body'', ''links'', ''attachments''}.
        row k = None \<or> row k = Some [])
      \<longrightarrow> fst (main_score_email up row) = Inr (0, []) \<and> fst (web_score_email up row) = Inr (0, []))
   \<and> (\<exists>r. fst (main_score_email up row) = Inr r)
   \<and> (\<exists>r. fst (web_score_email up row) = Inr r)"
proof -
  have "main_tags up row = [] \<and> web_tags up row = []"
    if "\<forall>k \<in> {''sender'', ''subject'', ''body'', ''links'', ''attachments''}.
        row k = None \<or> row k = Some []"
  proof -
    have "or_empty (row ''sender'') = []" "or_empty (row ''subject'') = []"
      "or_empty (row ''body'') = []" "or_empty (row ''links'') = []"
      "or_empty (row ''attachments'') = []"
      using that by (auto simp: or_empty_def)
    then show ?thesis
      by (simp add: main_tags_def web_tags_def no_keyword_in_space main_link_tags_def
          web_link_tags_def main_attachment_tags_def lookalike_hint_Nil)
  qed
  then show ?thesis
    by (auto simp: main_score_email_eq web_score_email_eq)
qed

theorem empty_record_scores_zero_witness:
  "fst (main_score_email urlparse_netloc example_id_only) = Inr (0, [])
   \<and> fst (web_score_email urlparse_netloc example_id_only) = Inr (0, [])"
  using empty_record_scores_zero [of example_id_only urlparse_netloc]
  by (simp add: example_id_only_def)

text \<open>
  Claim C9, as amended. In the CLI profile every record gets at most one
  \<^verbatim>\<open>brand_domain_mismatch\<close> reason, the one of the first matching brand; in the web profile
  a record whose trimmed links field is non-empty and not \<^verbatim>\<open>none\<close> gets one brand reason
  per matching brand of \<open>BRANDS\<close> (whose brands are distinct), in the order of \<open>BRANDS\<close>.
  In both profiles a record whose links field is empty or \<^verbatim>\<open>none\<close> gets no brand reason.
\<close>

theorem brand_reasons_first_match_or_each:
  assumes "links = strip (or_empty (row ''links''))"
    and "sender = lower (or_empty (row ''sender''))"
    and "subject = lower (or_empty (row ''subject''))"
    and "body = lower (or_empty (row ''body''))"
    and "domain_from_email sender = Inr sender_domain"
  shows "(\<exists>s rs. fst (main_score_email up row) = Inr (s, rs)
      \<and> length (filter (prefix ''brand_domain_mismatch:'') rs) \<le> 1
      \<and> filter (prefix ''brand_domain_mismatch:'') rs
          = (if links \<noteq> [] \<and> lower links \<noteq> ''none''
             then (case find (\<lambda>b. py_in b sender \<and> \<not> py_in b sender_domain) BRAND_KEYWORDS of
                     None \<Rightarrow> [] | Some b \<Rightarrow> [main_brand_tag b])
             else []))
   \<and> (\<exists>s rs. fst (web_score_email up row) = Inr (s, rs)
      \<and> filter (prefix ''Brand/domain mismatch: '') rs
          = (if links \<noteq> [] \<and> lower links \<noteq> ''none''
             then map (\<lambda>item. web_brand_tag (fst item))
                    (filter (\<lambda>(brand, legit_domains).
                               (py_in brand sender \<or> py_in brand subject \<or> py_in brand body)
                               \<and> \<not> list_ex (\<lambda>d. py_in d sender) legit_domains) BRANDS)
             else []))
   \<and> distinct (map fst BRANDS)"
proof -
  have sd: "sender_domain = sender_domain_of sender"
    using assms(5) by (simp add: domain_from_email_eq)
  have m: "filter (prefix ''brand_domain_mismatch:'') (main_tags up row)
      = (if links \<noteq> [] \<and> lower links \<noteq> ''none''
         then (case find (\<lambda>b. py_in b sender \<and> \<not> py_in b sender_domain) BRAND_KEYWORDS of
                 None \<Rightarrow> [] | Some b \<Rightarrow> [main_brand_tag b])
         else [])"
    by (simp add: filter_main_tags_brand main_brand_tags_def assms(1,2) sd)
  have l: "length (filter (prefix ''brand_domain_mismatch:'') (main_tags up row)) \<le> 1"
    unfolding m by (simp split: option.splits)
  have w: "filter (prefix ''Brand/domain mismatch: '') (web_tags up row)
      = (if links \<noteq> [] \<and> lower links \<noteq> ''none''
         then map (\<lambda>item. web_brand_tag (fst item))
                (filter (\<lambda>(brand, legit_domains).
                           (py_in brand sender \<or> py_in brand subject \<or> py_in brand body)
                           \<and> \<not> list_ex (\<lambda>d. py_in d sender) legit_domains) BRANDS)
         else [])"
    by (simp add: filter_web_tags_brand web_brand_tags_def web_brand_fires_case assms(1-4))
  show ?thesis
    using m l w distinct_BRANDS by (simp add: main_score_email_eq web_score_email_eq)
qed

theorem brand_reasons_first_match_or_each_witness:
  "fst (main_score_email urlparse_netloc example_two_brands) =
     Inr (5, [''link_domain_mismatch'', ''brand_domain_mismatch:amazon''])
   \<and> filter (prefix ''brand_domain_mismatch:'')
        [''link_domain_mismatch'', ''brand_domain_mismatch:amazon'']
      = [''brand_domain_mismatch:amazon'']
   \<and> (\<exists>s rs. fst (web_score_email urlparse_netloc example_two_brands) = Inr (s, rs)
        \<and> filter (prefix ''Brand/domain mismatch: '') rs
           = [''Brand/domain mismatch: amazon'', ''Brand/domain mismatch: paypal''])"
proof -
  have h1: "''https://evil.example/pay'' = strip (or_empty (example_two_brands ''links''))"
    by code_simp
  have h2: "''paypal amazon <x@evil.example>'' = lower (or_empty (example_two_brands ''sender''))"
    by code_simp
  have h3: "[] = lower (or_empty (example_two_brands ''subject''))"
    by code_simp
  have h4: "[] = lower (or_empty (example_two_brands ''body''))"
    by code_simp
  have h5: "domain_from_email ''paypal amazon <x@evil.example>'' = Inr ''evil.example>''"
    by code_simp
  have m: "fst (main_score_email urlparse_netloc example_two_brands) =
     Inr (5, [''link_domain_mismatch'', ''brand_domain_mismatch:amazon''])"
    by code_simp
  have g: "''https://evil.example/pay'' \<noteq> [] \<and> lower ''https://evil.example/pay'' \<noteq> ''none''"
    by simp
  have f: "map (\<lambda>item. web_brand_tag (fst item))
        (filter (\<lambda>(brand, legit_domains).
                   (py_in brand ''paypal amazon <x@evil.example>'' \<or> py_in brand [] \<or> py_in brand [])
                   \<and> \<not> list_ex (\<lambda>d. py_in d ''paypal amazon <x@evil.example>'') legit_domains) BRANDS)
      = [''Brand/domain mismatch: amazon'', ''Brand/domain mismatch: paypal'']"
    by (simp add: BRANDS_def web_brand_tag_def)
  have fm: "(case find (\<lambda>b. py_in b ''paypal amazon <x@evil.example>'' \<and> \<not> py_in b ''evil.example>'')
                  BRAND_KEYWORDS of
               None \<Rightarrow> [] | Some b \<Rightarrow> [main_brand_tag b])
      = [''brand_domain_mismatch:amazon'']"
    by (simp add: BRAND_KEYWORDS_def main_brand_tag_def)
  show ?thesis
    using brand_reasons_first_match_or_each [OF h1 h2 h3 h4 h5, of urlparse_netloc]
    unfolding f fm m using g by simp
qed

text \<open>
  Two brands match in a record whose links field is \<^verbatim>\<open>none\<close>, and the web profile returns
  no brand reason.
\<close>

theorem brand_reasons_link_none_counterexample:
  "strip (or_empty (example_brands_link_none ''links'')) = ''none''
   \<and> map fst (filter (web_brand_fires (lower (or_empty (example_brands_link_none ''sender'')))
                        (lower (or_empty (example_brands_link_none ''subject'')))
                        (lower (or_empty (example_brands_link_none ''body'')))) BRANDS)
      = [''paypal'', ''apple'']
   \<and> fst (web_score_email urlparse_netloc example_brands_link_none) = Inr (0, [])"
  by code_simp

text \<open>
  Claim C10. For every input record, \<^verbatim>\<open>score_email\<close> leaves the record unchanged: the
  mapping after the call is the mapping before it, in both profiles.
\<close>

theorem score_email_leaves_row_unchanged:
  "snd (main_score_email up row) = row \<and> snd (web_score_email up row) = row"
  by (simp add: main_score_email_eq web_score_email_eq)

theorem score_email_leaves_row_unchanged_witness:
  "snd (main_score_email urlparse_netloc example_phish) = example_phish
   \<and> snd (web_score_email urlparse_netloc example_phish) = example_phish"
  using score_email_leaves_row_unchanged [of urlparse_netloc example_phish]
  by simp

end
